theory Spec2Isabelle
  imports Main "HOL-Library.Word" "HOL-Library.AList" "HOL-Library.Multiset"
begin

section \<open>Primitive types\<close>

text \<open>
  Identifiers, addresses, keys and signatures are fixed-size byte arrays in the Go code
  (hashes of 32 bytes). Only their equality and their zero value matter here, so each is
  read as the number its bytes encode; the zero value of the Go array is \<open>0\<close>.

  The declarations of \<open>Currency\<close>, \<open>BlockHeight\<close> and \<open>Timestamp\<close> are not part of
  the sources at hand. The code converts untyped constants to them, adds, subtracts and
  compares them, so they are Go machine integers: \<open>Currency\<close> and \<open>BlockHeight\<close> are
  taken as unsigned 64-bit values (like the \<open>uint64\<close> fields of \<open>InputSignatures\<close>),
  \<open>Timestamp\<close> as a signed 64-bit value (it is converted from \<open>time.Now().Unix()\<close>, an
  \<open>int64\<close>, and to \<open>int\<close>); its comparisons read the word through \<open>sint\<close>.
\<close>

type_synonym Hash = nat
type_synonym BlockID = nat
type_synonym OutputID = nat
type_synonym ContractID = nat
type_synonym CoinAddress = nat
type_synonym PublicKey = nat
type_synonym SignatureBytes = nat
type_synonym Currency = "64 word"
type_synonym BlockHeight = "64 word"
type_synonym Timestamp = "64 word"
type_synonym Target = nat

section \<open>Errors and panics\<close>

text \<open>
  Every \<open>errors.New\<close> of the code is a constructor of \<open>error\<close>; the conservation error
  carries the two sums its message prints. \<open>ErrorsNew\<close> stands for an error made by a
  function whose body is not in the sources. A Go run-time panic is a value of \<open>panic\<close>.
\<close>

datatype error =
    ConflictingTransactionErr
  | InvalidSignatureErr
  | SpendsNonexistingOutput
  | SpendConditionsDoNotMatchHash
  | OutputSpentBeforeTimelockExpiry
  | OutputSpentTwice
  | InputsDoNotEqualOutputs Currency Currency
  | FrivolousSignature
  | PublicKeyUsedTwice
  | SignatureTimelockNotExpired
  | InputNotFullySigned
  | BlockKnownErr
  | FutureBlockErr
  | KnownOrphanErr
  | UnknownOrphanErr
  | BlockKnownInvalid
  | BlockDoesNotMeetTarget
  | TimestampInThePast
  | BlockTooLarge
  | MerkleRootMismatch
  | NoBlockAtHeight BlockHeight
  | NoBlockOfThatID
  | OutputNotInUtxoSet
  | NoMatchingBlockFound
  | moreBlocksErr
  | ErrorsNew string

datatype panic = NilPointerDereference | IndexOutOfRange | ExplicitPanic

datatype 'a result = Panic panic | Err error | Ok 'a

section \<open>Transactions\<close>

record SpendConditions =
  TimeLock :: BlockHeight
  NumSignatures :: "64 word"
  PublicKeys :: "PublicKey list"

record Input =
  OutputID :: OutputID
  SpendConditions :: SpendConditions

record Output =
  Value :: Currency
  SpendHash :: CoinAddress

record FileContract =
  ContractFund :: Currency
  FileMerkleRoot :: Hash
  Start :: BlockHeight
  End :: BlockHeight
  ChallengeWindow :: BlockHeight
  Tolerance :: "64 word"
  ValidProofAddress :: CoinAddress
  MissedProofAddress :: CoinAddress

record StorageProof =
  ContractID :: ContractID
  Segment :: nat
  HashSet :: "Hash list"

record TransactionSignature =
  InputID :: OutputID
  PublicKeyIndex :: "64 word"
  TimeLock :: BlockHeight
  Signature :: SignatureBytes

record Transaction =
  Inputs :: "Input list"
  MinerFees :: "Currency list"
  Outputs :: "Output list"
  FileContracts :: "FileContract list"
  StorageProofs :: "StorageProof list"
  Signatures :: "TransactionSignature list"

record OutputDiff =
  New :: bool
  ID :: OutputID
  Output :: Output

text \<open>\<open>InputSignatures\<close>: \<open>UsedKeys\<close> is a Go map used as a set of key indices.\<close>

record InputSignatures =
  RemainingSignatures :: "64 word"
  PossibleKeys :: "PublicKey list"
  UsedKeys :: "64 word set"
  Index :: nat

section \<open>Blocks and the state\<close>

record Block =
  ParentBlockID :: BlockID
  Timestamp :: Timestamp
  Nonce :: "64 word"
  MinerAddress :: CoinAddress
  MerkleRoot :: Hash
  Transactions :: "Transaction list"

text \<open>
  A \<open>BlockNode\<close>; \<open>RecentTimestamps\<close> is the Go array \<open>[11]Timestamp\<close>. The list of
  children is left out: no function modelled here reads it.
\<close>

record BlockNode =
  Block :: Block
  Height :: BlockHeight
  RecentTimestamps :: "Timestamp list"
  Target :: Target
  Depth :: Target

record OpenContract =
  FileContract :: FileContract
  ContractID :: ContractID
  FundsRemaining :: Currency
  Failures :: "64 word"
  WindowSatisfied :: bool

text \<open>
  The \<open>State\<close> struct. Go maps are partial functions; the pointers stored in
  \<open>blockMap\<close>, \<open>openContracts\<close> and the transaction pool are modelled by the values they
  point to: the list of children, the one field the code under study updates through such
  a pointer, is left out. The pointer to the root node, the subscription channels and the
  mutex are left out as well.
\<close>

record State =
  badBlocks :: "BlockID set"
  blockMap :: "BlockID \<rightharpoonup> BlockNode"
  missingParents :: "BlockID \<rightharpoonup> (BlockID \<rightharpoonup> Block)"
  transactionPoolOutputs :: "OutputID \<rightharpoonup> Transaction"
  transactionPoolProofs :: "ContractID \<rightharpoonup> Transaction"
  transactionList :: "OutputID \<rightharpoonup> Transaction"
  currentBlockID :: BlockID
  currentPath :: "BlockHeight \<rightharpoonup> BlockID"
  unspentOutputs :: "OutputID \<rightharpoonup> Output"
  openContracts :: "ContractID \<rightharpoonup> OpenContract"
  spentOutputs :: "OutputID \<rightharpoonup> Output"

text \<open>
  Functions and constants of the repository that the code under study uses and whose
  declarations are not in the sources: the \<open>DEBUG\<close> flag, the hash of spend conditions,
  the signature hash and signature check, the validity checks of contracts and storage
  proofs, the identifiers a transaction derives for its outputs and contracts, the open
  contract registered for a new file contract, the identifier of the output a storage
  proof pays out and the amount it pays, and, for blocks, the block identifier, the
  target check, the length of the
  encoded block, the recomputed Merkle root, the target and depth of a child node, the
  fork choice, the reorganisation and the sanity check of the current path. They are
  parameters of the model.
\<close>

record externs =
  CoinAddress :: "SpendConditions \<Rightarrow> CoinAddress"
  SigHash :: "Transaction \<Rightarrow> nat \<Rightarrow> Hash"
  VerifyBytes :: "Hash \<Rightarrow> PublicKey \<Rightarrow> SignatureBytes \<Rightarrow> bool"
  validContract :: "State \<Rightarrow> FileContract \<Rightarrow> unit result"
  validProof :: "State \<Rightarrow> StorageProof \<Rightarrow> unit result"
  TransactionOutputID :: "Transaction \<Rightarrow> nat \<Rightarrow> OutputID"
  FileContractID :: "Transaction \<Rightarrow> nat \<Rightarrow> ContractID"
  DEBUG :: bool
  newOpenContract :: "FileContract \<Rightarrow> ContractID \<Rightarrow> OpenContract"
  StorageProofOutputID :: "StorageProof \<Rightarrow> OutputID"
  contractPayout :: "OpenContract \<Rightarrow> Currency"
  BlockIDOf :: "Block \<Rightarrow> BlockID"
  CheckTarget :: "Block \<Rightarrow> Target \<Rightarrow> bool"
  encodedLength :: "Block \<Rightarrow> nat"
  TransactionMerkleRoot :: "Block \<Rightarrow> Hash"
  childTarget :: "State \<Rightarrow> BlockNode \<Rightarrow> BlockNode \<Rightarrow> Target"
  childDepth :: "BlockNode \<Rightarrow> Target"
  heavierFork :: "State \<Rightarrow> BlockNode \<Rightarrow> bool"
  forkBlockchain ::
    "State \<Rightarrow> BlockNode \<Rightarrow> (Block list \<times> Block list \<times> OutputDiff list) result \<times> State"
  currentPathCheck :: "State \<Rightarrow> bool"

section \<open>Transaction validation\<close>

definition zeroOutput :: Output where
  "zeroOutput = \<lparr>Value = 0, SpendHash = 0\<rparr>"

text \<open>Reading a Go map at a missing key gives the zero value.\<close>

definition outputAt :: "(OutputID \<rightharpoonup> Output) \<Rightarrow> OutputID \<Rightarrow> Output" where
  "outputAt m k = (case m k of None \<Rightarrow> zeroOutput | Some out \<Rightarrow> out)"

text \<open>\<open>height\<close> dereferences the node of the current block.\<close>

definition height :: "State \<Rightarrow> BlockHeight result" where
  "height s = (case blockMap s (currentBlockID s) of
                 None \<Rightarrow> Panic NilPointerDereference
               | Some bn \<Rightarrow> Ok (Height bn))"

definition validInput :: "externs \<Rightarrow> State \<Rightarrow> Input \<Rightarrow> unit result" where
  "validInput X s input =
     (case unspentOutputs s (OutputID input) of
        None \<Rightarrow> Err SpendsNonexistingOutput
      | Some out \<Rightarrow>
          if CoinAddress X (SpendConditions input) \<noteq> SpendHash out
          then Err SpendConditionsDoNotMatchHash
          else (case height s of
                  Panic p \<Rightarrow> Panic p
                | Err e \<Rightarrow> Err e
                | Ok h \<Rightarrow>
                    if SpendConditions.TimeLock (SpendConditions input) > h
                    then Err OutputSpentBeforeTimelockExpiry
                    else Ok ()))"

text \<open>
  The map \<open>inputSignaturesMap\<close> is an association list in insertion order. The first
  loop of \<open>validTransaction\<close>: \<open>i\<close> is the index of the input, \<open>inputSum\<close> the running
  sum, \<open>m\<close> the map built so far. \<open>UsedKeys\<close> is not set in the struct literal, so it is
  the nil map, which reads as empty.
\<close>

fun validInputs ::
  "externs \<Rightarrow> State \<Rightarrow> Input list \<Rightarrow> nat \<Rightarrow> Currency \<Rightarrow> (OutputID \<times> InputSignatures) list
     \<Rightarrow> (Currency \<times> (OutputID \<times> InputSignatures) list) result" where
  "validInputs X s [] i inputSum m = Ok (inputSum, m)"
| "validInputs X s (input # inputs) i inputSum m =
     (case validInput X s input of
        Panic p \<Rightarrow> Panic p
      | Err e \<Rightarrow> Err e
      | Ok _ \<Rightarrow>
          (case map_of m (OutputID input) of
             Some _ \<Rightarrow> Err OutputSpentTwice
           | None \<Rightarrow>
               validInputs X s inputs (Suc i)
                 (inputSum + Value (outputAt (unspentOutputs s) (OutputID input)))
                 (AList.update (OutputID input)
                    \<lparr>RemainingSignatures = NumSignatures (SpendConditions input),
                     PossibleKeys = PublicKeys (SpendConditions input),
                     UsedKeys = {}, Index = i\<rparr> m)))"

text \<open>The tally of miner fees and output values, then of contract funds.\<close>

definition tallyFeesAndOutputs :: "Transaction \<Rightarrow> Currency" where
  "tallyFeesAndOutputs t =
     fold (\<lambda>output outputSum. outputSum + Value output) (Outputs t)
       (fold (\<lambda>minerFee outputSum. outputSum + minerFee) (MinerFees t) 0)"

fun validContracts :: "externs \<Rightarrow> State \<Rightarrow> FileContract list \<Rightarrow> Currency \<Rightarrow> Currency result" where
  "validContracts X s [] outputSum = Ok outputSum"
| "validContracts X s (contract # contracts) outputSum =
     (case validContract X s contract of
        Panic p \<Rightarrow> Panic p
      | Err e \<Rightarrow> Err e
      | Ok _ \<Rightarrow> validContracts X s contracts (outputSum + ContractFund contract))"

fun validProofs :: "externs \<Rightarrow> State \<Rightarrow> StorageProof list \<Rightarrow> unit result" where
  "validProofs X s [] = Ok ()"
| "validProofs X s (proof # proofs) =
     (case validProof X s proof of
        Panic p \<Rightarrow> Panic p
      | Err e \<Rightarrow> Err e
      | Ok _ \<Rightarrow> validProofs X s proofs)"

text \<open>
  The signature loop. \<open>inputSignaturesMap[sig.InputID]\<close> is a pointer: reading a field of
  it panics when the key is missing. \<open>PossibleKeys[sig.PublicKeyIndex]\<close> panics when the
  index is out of range. The loop only ever decrements \<open>RemainingSignatures\<close>; it does
  not write \<open>UsedKeys\<close>.
\<close>

fun checkSignatures ::
  "externs \<Rightarrow> State \<Rightarrow> Transaction \<Rightarrow> nat \<Rightarrow> TransactionSignature list
     \<Rightarrow> (OutputID \<times> InputSignatures) list \<Rightarrow> (OutputID \<times> InputSignatures) list result" where
  "checkSignatures X s t i [] m = Ok m"
| "checkSignatures X s t i (sig # sigs) m =
     (case map_of m (InputID sig) of
        None \<Rightarrow> Panic NilPointerDereference
      | Some isigs \<Rightarrow>
          if RemainingSignatures isigs = 0 then Err FrivolousSignature
          else if PublicKeyIndex sig \<in> UsedKeys isigs then Err PublicKeyUsedTwice
          else (case height s of
                  Panic p \<Rightarrow> Panic p
                | Err e \<Rightarrow> Err e
                | Ok h \<Rightarrow>
                    if TimeLock sig > h then Err SignatureTimelockNotExpired
                    else if length (PossibleKeys isigs) \<le> unat (PublicKeyIndex sig)
                    then Panic IndexOutOfRange
                    else if \<not> VerifyBytes X (SigHash X t i)
                                 (PossibleKeys isigs ! unat (PublicKeyIndex sig)) (Signature sig)
                    then Err InvalidSignatureErr
                    else checkSignatures X s t (Suc i) sigs
                           (AList.update (InputID sig)
                              (isigs\<lparr>RemainingSignatures := RemainingSignatures isigs - 1\<rparr>) m)))"

text \<open>
  \<open>validTransaction\<close>. The last loop ranges over the map in Go's unspecified order and
  reports the first input it meets that still needs signatures; which one the message
  names is not determined, so the error keeps no index.
\<close>

definition validTransaction :: "externs \<Rightarrow> State \<Rightarrow> Transaction \<Rightarrow> unit result" where
  "validTransaction X s t =
     (case validInputs X s (Inputs t) 0 0 [] of
        Panic p \<Rightarrow> Panic p
      | Err e \<Rightarrow> Err e
      | Ok (inputSum, inputSignaturesMap) \<Rightarrow>
          (case validContracts X s (FileContracts t) (tallyFeesAndOutputs t) of
             Panic p \<Rightarrow> Panic p
           | Err e \<Rightarrow> Err e
           | Ok outputSum \<Rightarrow>
               (case validProofs X s (StorageProofs t) of
                  Panic p \<Rightarrow> Panic p
                | Err e \<Rightarrow> Err e
                | Ok _ \<Rightarrow>
                    if inputSum < outputSum then Err (InputsDoNotEqualOutputs inputSum outputSum)
                    else (case checkSignatures X s t 0 (Signatures t) inputSignaturesMap of
                            Panic p \<Rightarrow> Panic p
                          | Err e \<Rightarrow> Err e
                          | Ok m \<Rightarrow>
                              if list_ex (\<lambda>(k, inputSignatures).
                                            RemainingSignatures inputSignatures \<noteq> 0) m
                              then Err InputNotFullySigned
                              else Ok ()))))"

definition ValidTransaction :: "externs \<Rightarrow> State \<Rightarrow> Transaction \<Rightarrow> unit result" where
  "ValidTransaction X s t = validTransaction X s t"

subsection \<open>The transaction pool\<close>

text \<open>
  Modelled from the spec: \<open>transactionPoolConflict\<close>, whose body is not in the sources.
  The specification of the mempool says that \<open>AcceptTransaction\<close> fails with
  \<open>ConflictingTransaction\<close> if any input of \<open>t\<close> appears in \<open>poolOutputs\<close>, or if any
  contract referenced by a storage proof appears in \<open>poolProofs\<close>.
\<close>

definition transactionPoolConflict :: "State \<Rightarrow> Transaction \<Rightarrow> bool" where
  "transactionPoolConflict s t =
     (list_ex (\<lambda>input. transactionPoolOutputs s (OutputID input) \<noteq> None) (Inputs t)
      \<or> list_ex (\<lambda>proof. transactionPoolProofs s (StorageProof.ContractID proof) \<noteq> None)
           (StorageProofs t))"

text \<open>
  Modelled from the spec: \<open>addTransactionToPool\<close>, whose body is not in the sources.
  The specification says that on success each input is indexed into \<open>poolOutputs\<close>, each
  proof's contract into \<open>poolProofs\<close>, and the transaction's first input into \<open>list\<close>.
\<close>

definition addTransactionToPool :: "State \<Rightarrow> Transaction \<Rightarrow> State" where
  "addTransactionToPool s t =
     s\<lparr>transactionPoolOutputs :=
          fold (\<lambda>input m. m(OutputID input \<mapsto> t)) (Inputs t) (transactionPoolOutputs s),
       transactionPoolProofs :=
          fold (\<lambda>proof m. m(StorageProof.ContractID proof \<mapsto> t)) (StorageProofs t)
            (transactionPoolProofs s),
       transactionList :=
          (case Inputs t of
             [] \<Rightarrow> transactionList s
           | input # _ \<Rightarrow> (transactionList s)(OutputID input \<mapsto> t))\<rparr>"

text \<open>
  \<open>AcceptTransaction\<close> returns its error and leaves the state as the second component.
\<close>

definition AcceptTransaction :: "externs \<Rightarrow> State \<Rightarrow> Transaction \<Rightarrow> unit result \<times> State" where
  "AcceptTransaction X s t =
     (if transactionPoolConflict s t then (Err ConflictingTransactionErr, s)
      else (case validTransaction X s t of
              Panic p \<Rightarrow> (Panic p, s)
            | Err e \<Rightarrow> (Err e, s)
            | Ok _ \<Rightarrow> (Ok (), addTransactionToPool s t)))"

section \<open>Applying and inverting a transaction\<close>

text \<open>
  Modelled from the spec: taking a transaction out of the mempool and
  \<open>removeTransactionConflictsFromPool\<close>, whose bodies are not in the sources. The
  specification says that applying a block removes every transaction in the block, and
  every transaction that shares an input with any of them, from the mempool, and that the
  mempool indexes each input, each proof's contract and the first input of a transaction.
\<close>

definition removeTransactionFromPool :: "State \<Rightarrow> Transaction \<Rightarrow> State" where
  "removeTransactionFromPool s t =
     s\<lparr>transactionPoolOutputs :=
          fold (\<lambda>input m. m(OutputID input := None)) (Inputs t) (transactionPoolOutputs s),
       transactionPoolProofs :=
          fold (\<lambda>proof m. m(StorageProof.ContractID proof := None)) (StorageProofs t)
            (transactionPoolProofs s),
       transactionList :=
          (case Inputs t of
             [] \<Rightarrow> transactionList s
           | input # _ \<Rightarrow> (transactionList s)(OutputID input := None))\<rparr>"

definition removeTransactionConflictsFromPool :: "State \<Rightarrow> Transaction \<Rightarrow> State" where
  "removeTransactionConflictsFromPool s t =
     fold (\<lambda>proof s'. case transactionPoolProofs s' (StorageProof.ContractID proof) of
                         None \<Rightarrow> s' | Some t' \<Rightarrow> removeTransactionFromPool s' t')
       (StorageProofs t)
       (fold (\<lambda>input s'. case transactionPoolOutputs s' (OutputID input) of
                            None \<Rightarrow> s' | Some t' \<Rightarrow> removeTransactionFromPool s' t')
          (Inputs t) s)"

text \<open>
  Modelled from the spec: \<open>applyContract\<close>, whose body is not in the sources. The
  specification says that applying a transaction registers each new open contract, and
  the comment at the call says that no output diff is made; the open contract itself is
  the parameter \<open>newOpenContract\<close>.
\<close>

definition applyContract :: "externs \<Rightarrow> State \<Rightarrow> FileContract \<Rightarrow> ContractID \<Rightarrow> State" where
  "applyContract X s contract cid =
     s\<lparr>openContracts := (openContracts s)(cid \<mapsto> newOpenContract X contract cid)\<rparr>"

text \<open>
  Modelled from the spec: \<open>applyStorageProof\<close> and \<open>invertStorageProof\<close>, whose bodies
  are not in the sources. The specification says that applying a storage proof credits
  the successful-payout output and advances the contract window, that an open contract
  holds its remaining funds and a flag telling whether a proof has arrived in the current
  window, and that the diffs replayed with \<open>new\<close> flipped are an exact inverse; the
  comments at the two calls say that the one adds the outputs created by storage proofs
  and the other deletes them, and the inversion returns one output diff. So the
  application pays the valid-proof address of the contract out of its remaining funds,
  sets the flag and makes the diff of the new output; the inversion deletes the output
  found at that identifier, returns its value to the funds, clears the flag and makes the
  diff of the deleted output. \<open>openContracts\<close> holds pointers, so reading the fields of a
  contract that is not open dereferences nil. The identifier of the payout output and the
  amount paid are the parameters \<open>StorageProofOutputID\<close> and \<open>contractPayout\<close>.
\<close>

definition applyStorageProof ::
  "externs \<Rightarrow> State \<Rightarrow> StorageProof \<Rightarrow> (State \<times> OutputDiff) result" where
  "applyStorageProof X s sp =
     (case openContracts s (StorageProof.ContractID sp) of
        None \<Rightarrow> Panic NilPointerDereference
      | Some c \<Rightarrow>
          Ok (s\<lparr>unspentOutputs :=
                   (unspentOutputs s)(StorageProofOutputID X sp \<mapsto>
                      \<lparr>Value = contractPayout X c,
                       SpendHash = ValidProofAddress (FileContract c)\<rparr>),
                 openContracts :=
                   (openContracts s)(StorageProof.ContractID sp \<mapsto>
                      c\<lparr>FundsRemaining := FundsRemaining c - contractPayout X c,
                        WindowSatisfied := True\<rparr>)\<rparr>,
              \<lparr>New = True, ID = StorageProofOutputID X sp,
               Output = \<lparr>Value = contractPayout X c,
                         SpendHash = ValidProofAddress (FileContract c)\<rparr>\<rparr>))"

definition invertStorageProof ::
  "externs \<Rightarrow> State \<Rightarrow> StorageProof \<Rightarrow> (State \<times> OutputDiff) result" where
  "invertStorageProof X s sp =
     (case openContracts s (StorageProof.ContractID sp) of
        None \<Rightarrow> Panic NilPointerDereference
      | Some c \<Rightarrow>
          Ok (s\<lparr>unspentOutputs := (unspentOutputs s)(StorageProofOutputID X sp := None),
                 openContracts :=
                   (openContracts s)(StorageProof.ContractID sp \<mapsto>
                      c\<lparr>FundsRemaining :=
                          FundsRemaining c
                          + Value (outputAt (unspentOutputs s) (StorageProofOutputID X sp)),
                        WindowSatisfied := False\<rparr>)\<rparr>,
              \<lparr>New = False, ID = StorageProofOutputID X sp,
               Output = outputAt (unspentOutputs s) (StorageProofOutputID X sp)\<rparr>))"

text \<open>The loops of \<open>applyTransaction\<close>, in the order of the source.\<close>

fun applyInputs ::
  "externs \<Rightarrow> State \<Rightarrow> Input list \<Rightarrow> OutputDiff list \<Rightarrow> (State \<times> OutputDiff list) result" where
  "applyInputs X s [] diffs = Ok (s, diffs)"
| "applyInputs X s (input # inputs) diffs =
     (if DEBUG X \<and> unspentOutputs s (OutputID input) = None then Panic ExplicitPanic
      else applyInputs X
             (s\<lparr>spentOutputs :=
                   (spentOutputs s)(OutputID input \<mapsto> outputAt (unspentOutputs s) (OutputID input)),
                unspentOutputs := (unspentOutputs s)(OutputID input := None)\<rparr>)
             inputs
             (diffs @ [\<lparr>New = False, ID = OutputID input,
                        Output = outputAt (unspentOutputs s) (OutputID input)\<rparr>]))"

fun applyOutputs ::
  "externs \<Rightarrow> Transaction \<Rightarrow> State \<Rightarrow> nat \<Rightarrow> Output list \<Rightarrow> OutputDiff list
     \<Rightarrow> State \<times> OutputDiff list" where
  "applyOutputs X t s i [] diffs = (s, diffs)"
| "applyOutputs X t s i (output # outputs) diffs =
     applyOutputs X t
       (s\<lparr>unspentOutputs := (unspentOutputs s)(TransactionOutputID X t i \<mapsto> output)\<rparr>)
       (Suc i) outputs
       (diffs @ [\<lparr>New = True, ID = TransactionOutputID X t i, Output = output\<rparr>])"

fun applyStorageProofs ::
  "externs \<Rightarrow> State \<Rightarrow> StorageProof list \<Rightarrow> OutputDiff list \<Rightarrow> (State \<times> OutputDiff list) result" where
  "applyStorageProofs X s [] diffs = Ok (s, diffs)"
| "applyStorageProofs X s (sp # sps) diffs =
     (case applyStorageProof X s sp of
        Panic p \<Rightarrow> Panic p
      | Err e \<Rightarrow> Err e
      | Ok (s', diff) \<Rightarrow> applyStorageProofs X s' sps (diffs @ [diff]))"

fun applyContracts :: "externs \<Rightarrow> Transaction \<Rightarrow> State \<Rightarrow> nat \<Rightarrow> FileContract list \<Rightarrow> State" where
  "applyContracts X t s i [] = s"
| "applyContracts X t s i (contract # contracts) =
     applyContracts X t (applyContract X s contract (FileContractID X t i)) (Suc i) contracts"

text \<open>
  \<open>applyTransaction\<close> gives the new state and the \<open>OutputDiffs\<close> of the transaction
  diff it returns.
\<close>

definition applyTransaction ::
  "externs \<Rightarrow> State \<Rightarrow> Transaction \<Rightarrow> (State \<times> OutputDiff list) result" where
  "applyTransaction X s t =
     (case applyInputs X (removeTransactionConflictsFromPool s t) (Inputs t) [] of
        Panic p \<Rightarrow> Panic p
      | Err e \<Rightarrow> Err e
      | Ok (s1, diffs1) \<Rightarrow>
          (case applyOutputs X t s1 0 (Outputs t) diffs1 of
             (s2, diffs2) \<Rightarrow>
               (case applyStorageProofs X s2 (StorageProofs t) diffs2 of
                  Panic p \<Rightarrow> Panic p
                | Err e \<Rightarrow> Err e
                | Ok (s3, diffs3) \<Rightarrow>
                    Ok (applyContracts X t s3 0 (FileContracts t), diffs3))))"

text \<open>\<open>output\<close>: the output of an identifier, if it is in the set of unspent outputs.\<close>

definition "output" :: "State \<Rightarrow> OutputID \<Rightarrow> Output result" where
  "output s oid = (case unspentOutputs s oid of
                     Some out \<Rightarrow> Ok out
                   | None \<Rightarrow> Err OutputNotInUtxoSet)"

text \<open>The loops of \<open>invertTransaction\<close>, in the order of the source.\<close>

fun deleteContracts :: "externs \<Rightarrow> Transaction \<Rightarrow> State \<Rightarrow> nat \<Rightarrow> FileContract list \<Rightarrow> State" where
  "deleteContracts X t s i [] = s"
| "deleteContracts X t s i (contract # contracts) =
     deleteContracts X t
       (s\<lparr>openContracts := (openContracts s)(FileContractID X t i := None)\<rparr>) (Suc i) contracts"

fun invertStorageProofs ::
  "externs \<Rightarrow> State \<Rightarrow> StorageProof list \<Rightarrow> OutputDiff list \<Rightarrow> (State \<times> OutputDiff list) result" where
  "invertStorageProofs X s [] diffs = Ok (s, diffs)"
| "invertStorageProofs X s (sp # sps) diffs =
     (case invertStorageProof X s sp of
        Panic p \<Rightarrow> Panic p
      | Err e \<Rightarrow> Err e
      | Ok (s', diff) \<Rightarrow> invertStorageProofs X s' sps (diffs @ [diff]))"

fun invertOutputs ::
  "externs \<Rightarrow> Transaction \<Rightarrow> State \<Rightarrow> nat \<Rightarrow> Output list \<Rightarrow> OutputDiff list
     \<Rightarrow> (State \<times> OutputDiff list) result" where
  "invertOutputs X t s i [] diffs = Ok (s, diffs)"
| "invertOutputs X t s i (_ # outputs) diffs =
     (case output s (TransactionOutputID X t i) of
        Panic p \<Rightarrow> Panic p
      | Err e \<Rightarrow> Panic ExplicitPanic
      | Ok out \<Rightarrow>
          invertOutputs X t
            (s\<lparr>unspentOutputs := (unspentOutputs s)(TransactionOutputID X t i := None)\<rparr>)
            (Suc i) outputs
            (diffs @ [\<lparr>New = False, ID = TransactionOutputID X t i, Output = out\<rparr>]))"

fun restoreInputs :: "State \<Rightarrow> Input list \<Rightarrow> OutputDiff list \<Rightarrow> State \<times> OutputDiff list" where
  "restoreInputs s [] diffs = (s, diffs)"
| "restoreInputs s (input # inputs) diffs =
     restoreInputs
       (s\<lparr>unspentOutputs :=
             (unspentOutputs s)(OutputID input \<mapsto> outputAt (spentOutputs s) (OutputID input)),
          spentOutputs := (spentOutputs s)(OutputID input := None)\<rparr>)
       inputs
       (diffs @ [\<lparr>New = True, ID = OutputID input,
                  Output = outputAt (spentOutputs s) (OutputID input)\<rparr>])"

definition invertTransaction ::
  "externs \<Rightarrow> State \<Rightarrow> Transaction \<Rightarrow> (State \<times> OutputDiff list) result" where
  "invertTransaction X s t =
     (case invertStorageProofs X (deleteContracts X t s 0 (FileContracts t)) (StorageProofs t) [] of
        Panic p \<Rightarrow> Panic p
      | Err e \<Rightarrow> Err e
      | Ok (s2, diffs2) \<Rightarrow>
          (case invertOutputs X t s2 0 (Outputs t) diffs2 of
             Panic p \<Rightarrow> Panic p
           | Err e \<Rightarrow> Err e
           | Ok (s3, diffs3) \<Rightarrow>
               (case restoreInputs s3 (Inputs t) diffs3 of
                  (s4, diffs4) \<Rightarrow> Ok (addTransactionToPool s4 t, diffs4))))"

section \<open>Block headers and the block tree\<close>

definition BlockSizeLimit :: nat where
  "BlockSizeLimit = 1024 * 1024 * 1024"

definition MedianTimestampWindow :: nat where
  "MedianTimestampWindow = 11"

definition FutureThreshold :: Timestamp where
  "FutureThreshold = 3 * 60 * 60"

definition MaxCatchUpBlocks :: BlockHeight where
  "MaxCatchUpBlocks = 100"

text \<open>
  \<open>earliestChildTimestamp\<close>: the timestamps are converted to \<open>int\<close>, sorted, and the
  entry at index \<open>MedianTimestampWindow / 2\<close> of the sorted slice is converted back.
\<close>

definition earliestChildTimestamp :: "BlockNode \<Rightarrow> Timestamp result" where
  "earliestChildTimestamp bn =
     (let intTimestamps = sort (map sint (RecentTimestamps bn))
      in if MedianTimestampWindow div 2 < length intTimestamps
         then Ok (word_of_int (intTimestamps ! (MedianTimestampWindow div 2)))
         else Panic IndexOutOfRange)"

text \<open>
  \<open>validHeader\<close>; \<open>now\<close> is the value of \<open>time.Now().Unix()\<close>. The parent is read
  from \<open>blockMap\<close> as a pointer and dereferenced.
\<close>

definition validHeader :: "externs \<Rightarrow> Timestamp \<Rightarrow> State \<Rightarrow> Block \<Rightarrow> unit result" where
  "validHeader X now s b =
     (case blockMap s (ParentBlockID b) of
        None \<Rightarrow> Panic NilPointerDereference
      | Some parent \<Rightarrow>
          if \<not> CheckTarget X b (Target parent) then Err BlockDoesNotMeetTarget
          else (case earliestChildTimestamp parent of
                  Panic p \<Rightarrow> Panic p
                | Err e \<Rightarrow> Err e
                | Ok earliest \<Rightarrow>
                    if sint earliest > sint (Timestamp b) then Err TimestampInThePast
                    else if sint (Timestamp b - now) > sint FutureThreshold then Err FutureBlockErr
                    else if encodedLength X b > BlockSizeLimit then Err BlockTooLarge
                    else if MerkleRoot b \<noteq> TransactionMerkleRoot X b then Err MerkleRootMismatch
                    else Ok ()))"

definition handleOrphanBlock :: "externs \<Rightarrow> State \<Rightarrow> Block \<Rightarrow> unit result \<times> State" where
  "handleOrphanBlock X s b =
     (if DEBUG X \<and> blockMap s (ParentBlockID b) \<noteq> None then (Panic ExplicitPanic, s)
      else (case missingParents s (ParentBlockID b) of
              None \<Rightarrow>
                (Err UnknownOrphanErr,
                 s\<lparr>missingParents :=
                      (missingParents s)(ParentBlockID b \<mapsto> [BlockIDOf X b \<mapsto> b])\<rparr>)
            | Some missingParent \<Rightarrow>
                if missingParent (BlockIDOf X b) \<noteq> None then (Err KnownOrphanErr, s)
                else (Err UnknownOrphanErr,
                      s\<lparr>missingParents :=
                           (missingParents s)
                             (ParentBlockID b \<mapsto> missingParent(BlockIDOf X b \<mapsto> b))\<rparr>)))"

text \<open>
  \<open>addBlockToTree\<close>: the child gets the last ten timestamps of its parent and its own.
  The target is computed from the node as filled so far (its target and depth still
  zero).
\<close>

definition addBlockToTree :: "externs \<Rightarrow> State \<Rightarrow> Block \<Rightarrow> (State \<times> BlockNode) result" where
  "addBlockToTree X s b =
     (case blockMap s (ParentBlockID b) of
        None \<Rightarrow> Panic NilPointerDereference
      | Some parentNode \<Rightarrow>
          (let node0 = \<lparr>Block = b, Height = Height parentNode + 1,
                        RecentTimestamps =
                          take 10 (drop 1 (RecentTimestamps parentNode)) @ [Timestamp b],
                        Target = 0, Depth = 0\<rparr>;
               newNode = node0\<lparr>Target := childTarget X s parentNode node0,
                               Depth := childDepth X parentNode\<rparr>
           in Ok (s\<lparr>blockMap := (blockMap s)(BlockIDOf X b \<mapsto> newNode)\<rparr>, newNode)))"

text \<open>
  \<open>AcceptBlock\<close> gives the rewound blocks, the applied blocks and the output diffs, or
  the error, and the state it leaves.
\<close>

definition AcceptBlock ::
  "externs \<Rightarrow> Timestamp \<Rightarrow> State \<Rightarrow> Block
     \<Rightarrow> (Block list \<times> Block list \<times> OutputDiff list) result \<times> State" where
  "AcceptBlock X now s b =
     (if BlockIDOf X b \<in> badBlocks s then (Err BlockKnownInvalid, s)
      else if blockMap s (BlockIDOf X b) \<noteq> None then (Err BlockKnownErr, s)
      else if blockMap s (ParentBlockID b) = None then
        (case handleOrphanBlock X s b of
           (Panic p, s') \<Rightarrow> (Panic p, s')
         | (Err e, s') \<Rightarrow> (Err e, s')
         | (Ok _, s') \<Rightarrow> (Ok ([], [], []), s'))
      else (case validHeader X now s b of
              Panic p \<Rightarrow> (Panic p, s)
            | Err e \<Rightarrow> (Err e, s)
            | Ok _ \<Rightarrow>
                (case addBlockToTree X s b of
                   Panic p \<Rightarrow> (Panic p, s)
                 | Err e \<Rightarrow> (Err e, s)
                 | Ok (s1, newBlockNode) \<Rightarrow>
                     (case (if heavierFork X s1 newBlockNode then forkBlockchain X s1 newBlockNode
                            else (Ok ([], [], []), s1)) of
                        (Panic p, s2) \<Rightarrow> (Panic p, s2)
                      | (Err e, s2) \<Rightarrow> (Err e, s2)
                      | (Ok r, s2) \<Rightarrow>
                          if DEBUG X \<and> \<not> currentPathCheck X s2 then (Panic ExplicitPanic, s2)
                          else (Ok r, s2)))))"

section \<open>Catching up with a peer\<close>

definition HeightOfBlock :: "State \<Rightarrow> BlockID \<Rightarrow> BlockHeight result" where
  "HeightOfBlock s bid = (case blockMap s bid of
                            None \<Rightarrow> Err NoBlockOfThatID
                          | Some node \<Rightarrow> Ok (Height node))"

text \<open>
  \<open>blockAtHeight\<close>: reading \<open>currentPath\<close> at a height it does not have gives the zero
  identifier, which is then looked up in \<open>blockMap\<close>.
\<close>

definition blockAtHeight :: "State \<Rightarrow> BlockHeight \<Rightarrow> Block result" where
  "blockAtHeight s h =
     (case blockMap s (case currentPath s h of None \<Rightarrow> 0 | Some bid \<Rightarrow> bid) of
        Some bn \<Rightarrow> Ok (Block bn)
      | None \<Rightarrow> Err (NoBlockAtHeight h))"

text \<open>The first loop of \<open>SendBlocks\<close>, with its variables \<open>found\<close> and \<open>highest\<close>.\<close>

fun findHighest :: "State \<Rightarrow> BlockID list \<Rightarrow> bool \<Rightarrow> BlockHeight \<Rightarrow> bool \<times> BlockHeight" where
  "findHighest s [] found highest = (found, highest)"
| "findHighest s (bid # ids) found highest =
     (case HeightOfBlock s bid of
        Ok h \<Rightarrow> findHighest s ids True (if h > highest then h else highest)
      | _ \<Rightarrow> findHighest s ids found highest)"

text \<open>
  The second loop: \<open>for i := highest; i < highest+MaxCatchUpBlocks; i++\<close>, left at the
  first height without a block. Heights are 64-bit, so the bound may have wrapped.
\<close>

function sendLoop :: "State \<Rightarrow> BlockHeight \<Rightarrow> BlockHeight \<Rightarrow> Block list \<Rightarrow> Block list" where
  "sendLoop s i bound blocks =
     (if i < bound
      then (case blockAtHeight s i of
              Ok b \<Rightarrow> sendLoop s (i + 1) bound (blocks @ [b])
            | _ \<Rightarrow> blocks)
      else blocks)"
  by pat_completeness auto
termination
proof (relation "measure (\<lambda>(s, i, bound, blocks). unat bound - unat i)")
  show "wf (measure (\<lambda>(s, i, bound, blocks). unat bound - unat i))"
    by simp
next
  fix s :: State and i bound :: BlockHeight and blocks :: "Block list" and x3 :: Block
  assume less: "i < bound"
  then have lt: "unat i < unat bound"
    by (simp add: word_less_nat_alt)
  have "unat bound < 2 ^ 64"
    using unsigned_less [of bound] by simp
  with lt have "unat i + unat (1 :: 64 word) < 2 ^ LENGTH(64)"
    by simp
  then have "unat (i + 1) = unat i + unat (1 :: 64 word)"
    by (simp only: unat_add_lem [THEN iffD1])
  then have "unat (i + 1) = Suc (unat i)"
    by simp
  with lt show "((s, i + 1, bound, blocks @ [x3]), (s, i, bound, blocks))
                     \<in> measure (\<lambda>(s, i, bound, blocks). unat bound - unat i)"
    by simp
qed

declare sendLoop.simps [simp del]

text \<open>
  \<open>SendBlocks\<close> takes the array of known block identifiers and gives the blocks and the
  error (\<open>Ok\<close> for nil).
\<close>

definition SendBlocks :: "State \<Rightarrow> BlockID list \<Rightarrow> Block list \<times> unit result" where
  "SendBlocks s knownBlocks =
     (case findHighest s knownBlocks False 0 of
        (found, highest) \<Rightarrow>
          if \<not> found then ([], Err NoMatchingBlockFound)
          else (sendLoop s highest (highest + MaxCatchUpBlocks) [],
                case blockAtHeight s (highest + MaxCatchUpBlocks) of
                  Ok _ \<Rightarrow> Err moreBlocksErr
                | _ \<Rightarrow> Ok ()))"

text \<open>
  \<open>CatchUp\<close>, up to the remote call: the list \<open>knownBlocks\<close> it builds. The first loop
  runs \<open>i\<close> from 0 below 12, the second runs \<open>i\<close> from 12 below 31 and doubles
  \<open>backtrace\<close> before each lookup; both are left at the first height without a block.
  The subtraction of heights wraps around.
\<close>

function recentLoop ::
  "externs \<Rightarrow> State \<Rightarrow> BlockHeight \<Rightarrow> nat \<Rightarrow> BlockID list \<Rightarrow> BlockID list" where
  "recentLoop X s tip i knownBlocks =
     (if i < 12
      then (case blockAtHeight s (tip - of_nat i) of
              Ok block \<Rightarrow> recentLoop X s tip (Suc i) (knownBlocks @ [BlockIDOf X block])
            | _ \<Rightarrow> knownBlocks)
      else knownBlocks)"
  by pat_completeness auto
termination
  by (relation "measure (\<lambda>(X, s, tip, i, knownBlocks). 12 - i)") auto

declare recentLoop.simps [simp del]

function backtraceLoop ::
  "externs \<Rightarrow> State \<Rightarrow> BlockHeight \<Rightarrow> nat \<Rightarrow> BlockHeight \<Rightarrow> BlockID list \<Rightarrow> BlockID list" where
  "backtraceLoop X s tip i backtrace knownBlocks =
     (if i < 31
      then (case blockAtHeight s (tip - backtrace * 2) of
              Ok block \<Rightarrow>
                backtraceLoop X s tip (Suc i) (backtrace * 2) (knownBlocks @ [BlockIDOf X block])
            | _ \<Rightarrow> knownBlocks)
      else knownBlocks)"
  by pat_completeness auto
termination
  by (relation "measure (\<lambda>(X, s, tip, i, backtrace, knownBlocks). 31 - i)") auto

declare backtraceLoop.simps [simp del]

definition zeroBlock :: Block where
  "zeroBlock = \<lparr>ParentBlockID = 0, Timestamp = 0, Nonce = 0, MinerAddress = 0,
                MerkleRoot = 0, Transactions = []\<rparr>"

definition CatchUp_knownBlocks :: "externs \<Rightarrow> State \<Rightarrow> BlockID list result" where
  "CatchUp_knownBlocks X s =
     (case height s of
        Panic p \<Rightarrow> Panic p
      | Err e \<Rightarrow> Err e
      | Ok tip \<Rightarrow>
          Ok (backtraceLoop X s tip 12 12 (recentLoop X s tip 0 [])
              @ [BlockIDOf X (case blockAtHeight s 0 of Ok genesis \<Rightarrow> genesis | _ \<Rightarrow> zeroBlock)]))"

section \<open>Notions used to state the properties\<close>

text \<open>
  The sum of the values of the outputs a transaction spends (an identifier that is not
  unspent reads as the zero output), and the sum of its miner fees, output values and
  contract funds, both as natural numbers, without wrap-around.
\<close>

definition inputTotal :: "State \<Rightarrow> Transaction \<Rightarrow> nat" where
  "inputTotal s t =
     sum_list (map (\<lambda>input. unat (Value (outputAt (unspentOutputs s) (OutputID input))))
                 (Inputs t))"

definition outputTotal :: "Transaction \<Rightarrow> nat" where
  "outputTotal t = sum_list (map unat (MinerFees t))
                     + sum_list (map (\<lambda>output. unat (Value output)) (Outputs t))
                     + sum_list (map (\<lambda>contract. unat (ContractFund contract)) (FileContracts t))"


text \<open>No identifier is a key of both \<open>unspentOutputs\<close> and \<open>spentOutputs\<close>.\<close>

definition disjointOutputs :: "State \<Rightarrow> bool" where
  "disjointOutputs s = (dom (unspentOutputs s) \<inter> dom (spentOutputs s) = {})"

text \<open>
  The identifiers of the outputs of a transaction, of the payout outputs of its storage
  proofs, of all the outputs that applying it creates, and of its contracts.
\<close>

definition outputIDs :: "externs \<Rightarrow> Transaction \<Rightarrow> OutputID list" where
  "outputIDs X t = map (TransactionOutputID X t) [0..<length (Outputs t)]"

definition payoutIDs :: "externs \<Rightarrow> Transaction \<Rightarrow> OutputID list" where
  "payoutIDs X t = map (StorageProofOutputID X) (StorageProofs t)"

definition createdOutputIDs :: "externs \<Rightarrow> Transaction \<Rightarrow> OutputID list" where
  "createdOutputIDs X t = outputIDs X t @ payoutIDs X t"


text \<open>
  Whether a call succeeds, and the state after applying a transaction (the state itself
  when the application does not succeed).
\<close>

definition succeeds :: "'a result \<Rightarrow> bool" where
  "succeeds r = (case r of Panic p \<Rightarrow> False | Err e \<Rightarrow> False | Ok v \<Rightarrow> True)"

definition afterApply :: "externs \<Rightarrow> State \<Rightarrow> Transaction \<Rightarrow> State" where
  "afterApply X s t = (case applyTransaction X s t of
                      Panic p \<Rightarrow> s
                    | Err e \<Rightarrow> s
                    | Ok (s', diffs) \<Rightarrow> s')"







text \<open>
  Applying a transaction and then inverting it in the state reached: the final state, the
  diffs of the application and the diffs of the inversion; then the final state alone
  (the first state when a step does not succeed) and the two diff sequences alone.
\<close>

definition applyThenInvert ::
  "externs \<Rightarrow> State \<Rightarrow> Transaction \<Rightarrow> (State \<times> OutputDiff list \<times> OutputDiff list) result" where
  "applyThenInvert X s t =
     (case applyTransaction X s t of
        Panic p \<Rightarrow> Panic p
      | Err e \<Rightarrow> Err e
      | Ok (s1, applied) \<Rightarrow>
          (case invertTransaction X s1 t of
             Panic p \<Rightarrow> Panic p
           | Err e \<Rightarrow> Err e
           | Ok (s2, inverted) \<Rightarrow> Ok (s2, applied, inverted)))"

definition afterRoundTrip :: "externs \<Rightarrow> State \<Rightarrow> Transaction \<Rightarrow> State" where
  "afterRoundTrip X s t =
     (case applyThenInvert X s t of
        Panic p \<Rightarrow> s
      | Err e \<Rightarrow> s
      | Ok (s2, applied, inverted) \<Rightarrow> s2)"

definition roundTripDiffs ::
  "externs \<Rightarrow> State \<Rightarrow> Transaction \<Rightarrow> (OutputDiff list \<times> OutputDiff list) result" where
  "roundTripDiffs X s t =
     (case applyThenInvert X s t of
        Panic p \<Rightarrow> Panic p
      | Err e \<Rightarrow> Err e
      | Ok (s2, applied, inverted) \<Rightarrow> Ok (applied, inverted))"


text \<open>
  The median of an odd number of timestamps, read as signed integers: a member with fewer
  than half of the timestamps strictly before it and fewer than half strictly after it.
\<close>

definition isMedian :: "Timestamp list \<Rightarrow> Timestamp \<Rightarrow> bool" where
  "isMedian ts m =
     (m \<in> set ts
      \<and> 2 * length (filter (\<lambda>x. sint x < sint m) ts) < length ts
      \<and> 2 * length (filter (\<lambda>x. sint m < sint x) ts) < length ts)"

text \<open>
  Whether the active chain has a block at a height, and the identifier of that block
  (of the zero block when there is none, as for \<open>genesis, _ := BlockAtHeight(0)\<close>).
\<close>

definition hasBlockAt :: "State \<Rightarrow> BlockHeight \<Rightarrow> bool" where
  "hasBlockAt s h = (case blockAtHeight s h of Ok _ \<Rightarrow> True | _ \<Rightarrow> False)"

definition blockIDAt :: "externs \<Rightarrow> State \<Rightarrow> BlockHeight \<Rightarrow> BlockID" where
  "blockIDAt X s h = BlockIDOf X (case blockAtHeight s h of Ok b \<Rightarrow> b | _ \<Rightarrow> zeroBlock)"

section \<open>Example data\<close>

text \<open>
  A stand-in for the functions that are parameters of the model (a toy address hash and
  signature scheme, identifiers numbered from fixed offsets, storage proofs that pay one
  coin), a state holding the genesis block and two unspent outputs, and a few
  transactions over it.
\<close>

definition exX :: externs where
  "exX = \<lparr>CoinAddress = (\<lambda>sc. 1000 + unat (NumSignatures sc) + sum_list (PublicKeys sc)),
          SigHash = (\<lambda>t i. 40 + i),
          VerifyBytes = (\<lambda>h k sg. sg = h + k),
          validContract = (\<lambda>s c. Ok ()),
          validProof = (\<lambda>s p. Ok ()),
          TransactionOutputID = (\<lambda>t i. 500 + i),
          FileContractID = (\<lambda>t i. 700 + i),
          DEBUG = True,
          newOpenContract = (\<lambda>c cid. \<lparr>FileContract = c, ContractID = cid,
                                        FundsRemaining = ContractFund c, Failures = 0,
                                        WindowSatisfied = False\<rparr>),
          StorageProofOutputID = (\<lambda>sp. 900 + StorageProof.ContractID sp),
          contractPayout = (\<lambda>c. 1),
          BlockIDOf = (\<lambda>b. unat (Nonce b)),
          CheckTarget = (\<lambda>b tg. unat (Nonce b) \<le> tg),
          encodedLength = (\<lambda>b. 80 + length (Transactions b)),
          TransactionMerkleRoot = (\<lambda>b. length (Transactions b)),
          childTarget = (\<lambda>s parent node. Target parent),
          childDepth = (\<lambda>parent. Depth parent + 1),
          heavierFork = (\<lambda>s node. False),
          forkBlockchain = (\<lambda>s node. (Ok ([], [], []), s)),
          currentPathCheck = (\<lambda>s. True)\<rparr>"

definition genesisBlock :: Block where
  "genesisBlock = \<lparr>ParentBlockID = 0, Timestamp = 1417070299, Nonce = 1, MinerAddress = 0,
                   MerkleRoot = 0, Transactions = []\<rparr>"

definition genesisNode :: BlockNode where
  "genesisNode = \<lparr>Block = genesisBlock, Height = 0,
                  RecentTimestamps =
                    [1417070299, 1417070299, 1417070299, 1417070299, 1417070299, 1417070299,
                     1417070299, 1417070299, 1417070299, 1417070299, 1417070299],
                  Target = 1000, Depth = 1\<rparr>"

definition exConditions :: SpendConditions where
  "exConditions = \<lparr>SpendConditions.TimeLock = 0, NumSignatures = 1, PublicKeys = [7]\<rparr>"

definition exState :: State where
  "exState = \<lparr>badBlocks = {}, blockMap = [1 \<mapsto> genesisNode], missingParents = Map.empty,
              transactionPoolOutputs = Map.empty, transactionPoolProofs = Map.empty,
              transactionList = Map.empty, currentBlockID = 1, currentPath = [0 \<mapsto> 1],
              unspentOutputs = [1 \<mapsto> \<lparr>Value = 10, SpendHash = 1008\<rparr>,
                                2 \<mapsto> \<lparr>Value = 20, SpendHash = 1009\<rparr>],
              openContracts = Map.empty, spentOutputs = Map.empty\<rparr>"

definition exSignature :: TransactionSignature where
  "exSignature = \<lparr>InputID = 1, PublicKeyIndex = 0, TimeLock = 0, Signature = 47\<rparr>"

definition surplusTransaction :: Transaction where
  "surplusTransaction =
     \<lparr>Inputs = [\<lparr>OutputID = 1, SpendConditions = exConditions\<rparr>], MinerFees = [1],
      Outputs = [\<lparr>Value = 4, SpendHash = 9\<rparr>], FileContracts = [], StorageProofs = [],
      Signatures = [exSignature]\<rparr>"

definition balancedTransaction :: Transaction where
  "balancedTransaction =
     \<lparr>Inputs = [\<lparr>OutputID = 1, SpendConditions = exConditions\<rparr>], MinerFees = [1],
      Outputs = [\<lparr>Value = 9, SpendHash = 9\<rparr>], FileContracts = [], StorageProofs = [],
      Signatures = [exSignature]\<rparr>"

definition deficitTransaction :: Transaction where
  "deficitTransaction =
     \<lparr>Inputs = [\<lparr>OutputID = 1, SpendConditions = exConditions\<rparr>], MinerFees = [1],
      Outputs = [\<lparr>Value = 10, SpendHash = 9\<rparr>], FileContracts = [], StorageProofs = [],
      Signatures = [exSignature]\<rparr>"

definition mintTransaction :: Transaction where
  "mintTransaction =
     \<lparr>Inputs = [], MinerFees = [],
      Outputs = [\<lparr>Value = 9223372036854775808, SpendHash = 9\<rparr>,
                 \<lparr>Value = 9223372036854775808, SpendHash = 8\<rparr>],
      FileContracts = [], StorageProofs = [], Signatures = []\<rparr>"

definition reusedKeyTransaction :: Transaction where
  "reusedKeyTransaction =
     \<lparr>Inputs = [\<lparr>OutputID = 2,
                 SpendConditions = \<lparr>SpendConditions.TimeLock = 0, NumSignatures = 2,
                                    PublicKeys = [7]\<rparr>\<rparr>],
      MinerFees = [],
      Outputs = [\<lparr>Value = 20, SpendHash = 9\<rparr>], FileContracts = [], StorageProofs = [],
      Signatures = [\<lparr>InputID = 2, PublicKeyIndex = 0, TimeLock = 0, Signature = 47\<rparr>,
                    \<lparr>InputID = 2, PublicKeyIndex = 0, TimeLock = 0, Signature = 48\<rparr>]\<rparr>"

definition strayTransaction :: Transaction where
  "strayTransaction =
     \<lparr>Inputs = [], MinerFees = [], Outputs = [], FileContracts = [], StorageProofs = [],
      Signatures = [\<lparr>InputID = 99, PublicKeyIndex = 0, TimeLock = 0, Signature = 0\<rparr>]\<rparr>"

definition exPoolState :: State where
  "exPoolState = addTransactionToPool exState balancedTransaction"



definition exContract :: FileContract where
  "exContract = \<lparr>ContractFund = 3, FileMerkleRoot = 77, Start = 5, End = 50,
                 ChallengeWindow = 5, Tolerance = 2, ValidProofAddress = 9,
                 MissedProofAddress = 8\<rparr>"

definition contractTransaction :: Transaction where
  "contractTransaction =
     \<lparr>Inputs = [\<lparr>OutputID = 1, SpendConditions = exConditions\<rparr>], MinerFees = [],
      Outputs = [\<lparr>Value = 5, SpendHash = 9\<rparr>, \<lparr>Value = 2, SpendHash = 8\<rparr>],
      FileContracts = [exContract], StorageProofs = [], Signatures = [exSignature]\<rparr>"


text \<open>
  A transaction without inputs that creates one output of value zero, a transaction that
  spends this output, and the states reached from the example state by applying the
  first, then the second, then the first again.
\<close>

definition freeTransaction :: Transaction where
  "freeTransaction =
     \<lparr>Inputs = [], MinerFees = [], Outputs = [\<lparr>Value = 0, SpendHash = 1000\<rparr>],
      FileContracts = [], StorageProofs = [], Signatures = []\<rparr>"

definition claimTransaction :: Transaction where
  "claimTransaction =
     \<lparr>Inputs = [\<lparr>OutputID = 500,
                 SpendConditions = \<lparr>SpendConditions.TimeLock = 0, NumSignatures = 0,
                                    PublicKeys = []\<rparr>\<rparr>],
      MinerFees = [], Outputs = [], FileContracts = [], StorageProofs = [],
      Signatures = []\<rparr>"

definition freeState :: State where
  "freeState = afterApply exX exState freeTransaction"

definition claimedState :: State where
  "claimedState = afterApply exX freeState claimTransaction"

definition replayedState :: State where
  "replayedState = afterApply exX claimedState freeTransaction"

text \<open>
  A state with an open contract whose current window has no proof yet, a storage proof
  for it, and a transaction with an input, two outputs, a new contract and that proof.
\<close>

definition exOpenContract :: OpenContract where
  "exOpenContract = \<lparr>FileContract = exContract, ContractID = 40, FundsRemaining = 3,
                     Failures = 0, WindowSatisfied = False\<rparr>"

definition contractState :: State where
  "contractState = exState\<lparr>openContracts := [40 \<mapsto> exOpenContract]\<rparr>"

definition exProof :: StorageProof where
  "exProof = \<lparr>StorageProof.ContractID = 40, Segment = 0, HashSet = []\<rparr>"

definition proofTransaction :: Transaction where
  "proofTransaction =
     \<lparr>Inputs = [\<lparr>OutputID = 1, SpendConditions = exConditions\<rparr>], MinerFees = [],
      Outputs = [\<lparr>Value = 5, SpendHash = 9\<rparr>, \<lparr>Value = 2, SpendHash = 8\<rparr>],
      FileContracts = [exContract], StorageProofs = [exProof], Signatures = [exSignature]\<rparr>"






text \<open>
  A clock value, and blocks on top of the genesis block: one whose timestamp lies before
  the median of its parent, one whose Merkle root does not match, one on each bound of
  the accepted interval.
\<close>

definition exNow :: Timestamp where
  "exNow = 1417080000"

definition pastBlock :: Block where
  "pastBlock = \<lparr>ParentBlockID = 1, Timestamp = 1417070000, Nonce = 5, MinerAddress = 0,
                MerkleRoot = 0, Transactions = []\<rparr>"

definition badMerkleBlock :: Block where
  "badMerkleBlock = \<lparr>ParentBlockID = 1, Timestamp = 1417070400, Nonce = 6, MinerAddress = 0,
                     MerkleRoot = 3, Transactions = []\<rparr>"

definition medianBlock :: Block where
  "medianBlock = \<lparr>ParentBlockID = 1, Timestamp = 1417070299, Nonce = 7, MinerAddress = 0,
                  MerkleRoot = 0, Transactions = []\<rparr>"

definition thresholdBlock :: Block where
  "thresholdBlock = \<lparr>ParentBlockID = 1, Timestamp = 1417090800, Nonce = 8, MinerAddress = 0,
                     MerkleRoot = 0, Transactions = []\<rparr>"

definition futureBlock :: Block where
  "futureBlock = \<lparr>ParentBlockID = 1, Timestamp = 1417090801, Nonce = 9, MinerAddress = 0,
                  MerkleRoot = 0, Transactions = []\<rparr>"

text \<open>
  A state with two forks over the genesis block: blocks 2 and 3 form the active chain,
  blocks 12 and 13 a side fork that is in \<open>blockMap\<close> and not on the current path.
\<close>

definition exBlock :: "BlockID \<Rightarrow> 64 word \<Rightarrow> Block" where
  "exBlock parent nonce = \<lparr>ParentBlockID = parent, Timestamp = 1417070299 + 10 * nonce,
                            Nonce = nonce, MinerAddress = 0, MerkleRoot = 0,
                            Transactions = []\<rparr>"

definition exNode :: "Block \<Rightarrow> BlockHeight \<Rightarrow> BlockNode" where
  "exNode b h = \<lparr>Block = b, Height = h, RecentTimestamps = RecentTimestamps genesisNode,
                 Target = 1000, Depth = 1 + unat h\<rparr>"

definition forkState :: State where
  "forkState = exState\<lparr>blockMap := [1 \<mapsto> genesisNode,
                                     2 \<mapsto> exNode (exBlock 1 2) 1,
                                     3 \<mapsto> exNode (exBlock 2 3) 2,
                                     12 \<mapsto> exNode (exBlock 1 12) 1,
                                     13 \<mapsto> exNode (exBlock 12 13) 2],
                        currentBlockID := 3,
                        currentPath := [0 \<mapsto> 1, 1 \<mapsto> 2, 2 \<mapsto> 3]\<rparr>"

text \<open>
  A state whose active chain has height 7000000: the block at height \<open>h\<close> has the
  identifier \<open>h + 1\<close>.
\<close>

definition tallState :: State where
  "tallState = exState\<lparr>blockMap := (\<lambda>bid. if 1 \<le> bid \<and> bid \<le> 7000001
                                            then Some (exNode (exBlock (bid - 1) (of_nat bid))
                                                         (of_nat (bid - 1)))
                                            else None),
                        currentBlockID := 7000001,
                        currentPath := (\<lambda>h. if h \<le> 7000000 then Some (unat h + 1)
                                             else None)\<rparr>"

section \<open>Properties of transaction validation\<close>

lemmas example_defs = exX_def exState_def genesisNode_def genesisBlock_def exConditions_def
  exSignature_def surplusTransaction_def balancedTransaction_def deficitTransaction_def
  reusedKeyTransaction_def strayTransaction_def exPoolState_def

lemmas replay_example_defs = freeTransaction_def claimTransaction_def freeState_def
  claimedState_def replayedState_def

lemmas proof_example_defs = exOpenContract_def contractState_def exProof_def
  proofTransaction_def exContract_def


lemmas validation_defs = validTransaction_def validInput_def height_def
  tallyFeesAndOutputs_def outputAt_def zeroOutput_def

subsection \<open>The sums that validation compares\<close>





subsection \<open>Sums without wrap-around\<close>




subsection \<open>The checks before the comparison return\<close>







text \<open>
  Beyond the bound of the theorem the sums of the code wrap around: a transaction without
  inputs whose two outputs are worth \<open>2 ^ 63\<close> each has the output sum 0 in \<open>Currency\<close>
  arithmetic and is accepted.
\<close>

lemma validTransaction_accepts_wrapped_sum:
  "validTransaction exX exState mintTransaction = Ok ()
   \<and> inputTotal exState mintTransaction = 0
   \<and> outputTotal mintTransaction = 2 ^ 64"
  by (simp add: validation_defs example_defs mintTransaction_def inputTotal_def outputTotal_def)

text \<open>
  Claim C2 fails on the code: the signature loop reads \<open>UsedKeys\<close> and never writes it,
  so the second of two signatures with the same input and the same key index is counted
  again. Here an input that requires two signatures and lists one key is accepted with
  two signatures by that key.
\<close>

theorem validTransaction_accepts_reused_key:
  "validTransaction exX exState reusedKeyTransaction = Ok ()
   \<and> map InputID (Signatures reusedKeyTransaction) = [2, 2]
   \<and> map PublicKeyIndex (Signatures reusedKeyTransaction) = [0, 0]
   \<and> map (\<lambda>input. NumSignatures (SpendConditions input)) (Inputs reusedKeyTransaction) = [2]
   \<and> map (\<lambda>input. PublicKeys (SpendConditions input)) (Inputs reusedKeyTransaction) = [[7]]"
  by (simp add: validation_defs example_defs)

subsection \<open>The keys of the signature map\<close>

lemma validInputs_keys:
  "validInputs X s ins i acc m = Ok (r, m') \<Longrightarrow> fst ` set m' = fst ` set m \<union> OutputID ` set ins"
proof (induction ins arbitrary: i acc m)
  case Nil
  then show ?case by simp
next
  case (Cons input ins)
  let ?m1 = "AList.update (OutputID input)
                    \<lparr>RemainingSignatures = NumSignatures (SpendConditions input),
                     PossibleKeys = PublicKeys (SpendConditions input),
                     UsedKeys = {}, Index = i\<rparr> m"
  from Cons.prems have "validInputs X s ins (Suc i)
      (acc + Value (outputAt (unspentOutputs s) (OutputID input))) ?m1 = Ok (r, m')"
    by (auto split: result.splits option.splits)
  then have "fst ` set m' = fst ` set ?m1 \<union> OutputID ` set ins"
    by (rule Cons.IH)
  then show ?case by (auto simp: dom_update)
qed

text \<open>
  Claim C10: when the checks before the signature loop pass and the first signature names
  an \<open>InputID\<close> that is the \<open>OutputID\<close> of no input, the lookup in
  \<open>inputSignaturesMap\<close> gives nil and \<open>validTransaction\<close> panics on the dereference;
  so do \<open>ValidTransaction\<close> and, when the pool has no conflict, \<open>AcceptTransaction\<close>.
\<close>

theorem validTransaction_panics_on_stray_signature:
  assumes inputs: "validInputs X s (Inputs t) 0 0 [] = Ok (isum, m)"
    and contracts: "validContracts X s (FileContracts t) (tallyFeesAndOutputs t) = Ok osum"
    and proofs: "validProofs X s (StorageProofs t) = Ok ()"
    and funded: "\<not> isum < osum"
    and first: "Signatures t = sig # sigs"
    and stray: "InputID sig \<notin> OutputID ` set (Inputs t)"
  shows "validTransaction X s t = Panic NilPointerDereference
       \<and> ValidTransaction X s t = Panic NilPointerDereference
       \<and> (\<not> transactionPoolConflict s t \<longrightarrow>
            AcceptTransaction X s t = (Panic NilPointerDereference, s))"
proof -
  from validInputs_keys [OF inputs] stray have "InputID sig \<notin> fst ` set m"
    by simp
  then have "map_of m (InputID sig) = None"
    by (simp add: map_of_eq_None_iff)
  then have "checkSignatures X s t 0 (Signatures t) m = Panic NilPointerDereference"
    by (simp add: first)
  with inputs contracts proofs funded
  have "validTransaction X s t = Panic NilPointerDereference"
    by (simp add: validTransaction_def)
  then show ?thesis
    by (simp add: ValidTransaction_def AcceptTransaction_def)
qed

theorem validTransaction_panics_on_stray_signature_witness:
  "Signatures strayTransaction = [\<lparr>InputID = 99, PublicKeyIndex = 0, TimeLock = 0, Signature = 0\<rparr>]
   \<and> Inputs strayTransaction = []
   \<and> validTransaction exX exState strayTransaction = Panic NilPointerDereference
   \<and> ValidTransaction exX exState strayTransaction = Panic NilPointerDereference
   \<and> AcceptTransaction exX exState strayTransaction = (Panic NilPointerDereference, exState)"
proof -
  have sigs: "Signatures strayTransaction =
      \<lparr>InputID = 99, PublicKeyIndex = 0, TimeLock = 0, Signature = 0\<rparr> # []"
    and ins: "Inputs strayTransaction = []"
    by (simp_all add: strayTransaction_def)
  have 1: "validInputs exX exState (Inputs strayTransaction) 0 0 [] = Ok (0, [])"
    by (simp add: ins)
  have 2: "validContracts exX exState (FileContracts strayTransaction)
             (tallyFeesAndOutputs strayTransaction) = Ok 0"
    by (simp add: strayTransaction_def tallyFeesAndOutputs_def)
  have 3: "validProofs exX exState (StorageProofs strayTransaction) = Ok ()"
    by (simp add: strayTransaction_def)
  have 4: "\<not> (0 :: Currency) < 0"
    by simp
  have 5: "InputID \<lparr>InputID = 99, PublicKeyIndex = 0, TimeLock = 0, Signature = 0\<rparr>
             \<notin> OutputID ` set (Inputs strayTransaction)"
    by (simp add: ins)
  have 6: "\<not> transactionPoolConflict exState strayTransaction"
    by (simp add: transactionPoolConflict_def strayTransaction_def)
  from validTransaction_panics_on_stray_signature [OF 1 2 3 4 sigs 5] 6 sigs ins show ?thesis
    by simp
qed

text \<open>
  Claim C5: if an input of \<open>t\<close> is indexed in the pool's outputs, or the contract of a
  storage proof of \<open>t\<close> is indexed in the pool's proofs, \<open>AcceptTransaction\<close> returns
  \<open>ConflictingTransactionErr\<close>; and whenever it returns an error, the state (pool and
  consensus) is the one it was given.
\<close>

theorem AcceptTransaction_conflict_and_errors:
  "((\<exists>input \<in> set (Inputs t). transactionPoolOutputs s (OutputID input) \<noteq> None)
     \<or> (\<exists>proof \<in> set (StorageProofs t).
            transactionPoolProofs s (StorageProof.ContractID proof) \<noteq> None)
    \<longrightarrow> AcceptTransaction X s t = (Err ConflictingTransactionErr, s))
   \<and> (\<forall>e s'. AcceptTransaction X s t = (Err e, s') \<longrightarrow> s' = s)"
proof (intro conjI impI allI)
  assume "(\<exists>input \<in> set (Inputs t). transactionPoolOutputs s (OutputID input) \<noteq> None)
     \<or> (\<exists>proof \<in> set (StorageProofs t).
            transactionPoolProofs s (StorageProof.ContractID proof) \<noteq> None)"
  then have "transactionPoolConflict s t"
    by (simp add: transactionPoolConflict_def list_ex_iff)
  then show "AcceptTransaction X s t = (Err ConflictingTransactionErr, s)"
    by (simp add: AcceptTransaction_def)
next
  fix e s'
  assume "AcceptTransaction X s t = (Err e, s')"
  then show "s' = s"
    by (auto simp: AcceptTransaction_def split: if_splits result.splits)
qed

theorem AcceptTransaction_conflict_and_errors_witness:
  "(\<exists>input \<in> set (Inputs surplusTransaction).
       transactionPoolOutputs exPoolState (OutputID input) \<noteq> None)
   \<and> AcceptTransaction exX exPoolState surplusTransaction
       = (Err ConflictingTransactionErr, exPoolState)
   \<and> AcceptTransaction exX exState deficitTransaction
       = (Err (InputsDoNotEqualOutputs 10 11), exState)"
proof -
  have h: "\<exists>input \<in> set (Inputs surplusTransaction).
       transactionPoolOutputs exPoolState (OutputID input) \<noteq> None"
    by (simp add: example_defs addTransactionToPool_def)
  have v: "validTransaction exX exState deficitTransaction = Err (InputsDoNotEqualOutputs 10 11)"
    by (simp add: validation_defs example_defs)
  have nc: "\<not> transactionPoolConflict exState deficitTransaction"
    by (simp add: transactionPoolConflict_def example_defs)
  have "\<exists>s'. AcceptTransaction exX exState deficitTransaction
               = (Err (InputsDoNotEqualOutputs 10 11), s')"
    by (simp add: AcceptTransaction_def v nc)
  then obtain s' where a: "AcceptTransaction exX exState deficitTransaction
               = (Err (InputsDoNotEqualOutputs 10 11), s')" ..
  from AcceptTransaction_conflict_and_errors [of surplusTransaction exPoolState exX] h
  have c: "AcceptTransaction exX exPoolState surplusTransaction
       = (Err ConflictingTransactionErr, exPoolState)"
    by blast
  from AcceptTransaction_conflict_and_errors [of deficitTransaction exState exX] a
  have "s' = exState"
    by blast
  with h c a show ?thesis
    by simp
qed

section \<open>Properties of applying and inverting a transaction\<close>

lemmas applyInvert_defs = applyThenInvert_def roundTripDiffs_def applyTransaction_def
  invertTransaction_def removeTransactionConflictsFromPool_def addTransactionToPool_def
  applyContract_def applyStorageProof_def invertStorageProof_def output_def outputAt_def
  zeroOutput_def

subsection \<open>The pool functions leave the consensus maps alone\<close>

lemma removeTransactionFromPool_fields [simp]:
  "unspentOutputs (removeTransactionFromPool s t) = unspentOutputs s"
  "spentOutputs (removeTransactionFromPool s t) = spentOutputs s"
  "openContracts (removeTransactionFromPool s t) = openContracts s"
  by (simp_all add: removeTransactionFromPool_def)

lemma fold_pool_fields:
  assumes "\<And>x s. unspentOutputs (f x s) = unspentOutputs s"
    and "\<And>x s. spentOutputs (f x s) = spentOutputs s"
    and "\<And>x s. openContracts (f x s) = openContracts s"
  shows "unspentOutputs (fold f xs s) = unspentOutputs s
       \<and> spentOutputs (fold f xs s) = spentOutputs s
       \<and> openContracts (fold f xs s) = openContracts s"
  by (induction xs arbitrary: s) (simp_all add: assms)

lemma removeTransactionConflictsFromPool_fields:
  "unspentOutputs (removeTransactionConflictsFromPool s t) = unspentOutputs s"
  "spentOutputs (removeTransactionConflictsFromPool s t) = spentOutputs s"
  "openContracts (removeTransactionConflictsFromPool s t) = openContracts s"
proof -
  let ?f = "\<lambda>input s'. case transactionPoolOutputs s' (OutputID input) of
                            None \<Rightarrow> s' | Some t' \<Rightarrow> removeTransactionFromPool s' t'"
  let ?g = "\<lambda>proof s'. case transactionPoolProofs s' (StorageProof.ContractID proof) of
                         None \<Rightarrow> s' | Some t' \<Rightarrow> removeTransactionFromPool s' t'"
  have f: "unspentOutputs (fold ?f xs s) = unspentOutputs s
       \<and> spentOutputs (fold ?f xs s) = spentOutputs s
       \<and> openContracts (fold ?f xs s) = openContracts s" for xs s
    by (rule fold_pool_fields) (simp_all split: option.splits)
  have g: "unspentOutputs (fold ?g xs s) = unspentOutputs s
       \<and> spentOutputs (fold ?g xs s) = spentOutputs s
       \<and> openContracts (fold ?g xs s) = openContracts s" for xs s
    by (rule fold_pool_fields) (simp_all split: option.splits)
  show "unspentOutputs (removeTransactionConflictsFromPool s t) = unspentOutputs s"
    "spentOutputs (removeTransactionConflictsFromPool s t) = spentOutputs s"
    "openContracts (removeTransactionConflictsFromPool s t) = openContracts s"
    by (simp_all add: removeTransactionConflictsFromPool_def f g)
qed

lemma addTransactionToPool_fields [simp]:
  "unspentOutputs (addTransactionToPool s t) = unspentOutputs s"
  "spentOutputs (addTransactionToPool s t) = spentOutputs s"
  "openContracts (addTransactionToPool s t) = openContracts s"
  by (simp_all add: addTransactionToPool_def)

subsection \<open>Domains of the output maps\<close>

lemma applyInputs_dom:
  "applyInputs X s ins d = Ok (s', d') \<Longrightarrow>
     dom (unspentOutputs s') = dom (unspentOutputs s) - OutputID ` set ins
   \<and> dom (spentOutputs s') = dom (spentOutputs s) \<union> OutputID ` set ins"
proof (induction ins arbitrary: s d)
  case Nil
  then show ?case by simp
next
  case (Cons input ins)
  let ?s1 = "s\<lparr>spentOutputs :=
                   (spentOutputs s)(OutputID input \<mapsto> outputAt (unspentOutputs s) (OutputID input)),
                unspentOutputs := (unspentOutputs s)(OutputID input := None)\<rparr>"
  from Cons.prems have "applyInputs X ?s1 ins
      (d @ [\<lparr>New = False, ID = OutputID input,
                        Output = outputAt (unspentOutputs s) (OutputID input)\<rparr>]) = Ok (s', d')"
    by (simp split: if_splits)
  from Cons.IH [OF this] show ?case
    by (auto split: if_splits)
qed

lemma applyOutputs_dom:
  "applyOutputs X t s i outs d = (s', d') \<Longrightarrow>
     dom (unspentOutputs s') = dom (unspentOutputs s) \<union> TransactionOutputID X t ` {i..<i + length outs}
   \<and> spentOutputs s' = spentOutputs s"
proof (induction outs arbitrary: s i d)
  case Nil
  then show ?case by simp
next
  case (Cons out outs)
  let ?s1 = "s\<lparr>unspentOutputs := (unspentOutputs s)(TransactionOutputID X t i \<mapsto> out)\<rparr>"
  from Cons.prems have "applyOutputs X t ?s1 (Suc i) outs
       (d @ [\<lparr>New = True, ID = TransactionOutputID X t i, Output = out\<rparr>]) = (s', d')"
    by simp
  moreover have "{i..<i + length (out # outs)} = insert i {Suc i..<Suc i + length outs}"
    by auto
  ultimately show ?case
    using Cons.IH [of ?s1 "Suc i"] by (auto split: if_splits)
qed

lemma applyStorageProofs_dom:
  "applyStorageProofs X s sps d = Ok (s', d') \<Longrightarrow>
     dom (unspentOutputs s') = dom (unspentOutputs s) \<union> StorageProofOutputID X ` set sps
   \<and> spentOutputs s' = spentOutputs s"
proof (induction sps arbitrary: s d)
  case Nil
  then show ?case by simp
next
  case (Cons sp sps)
  from Cons.prems obtain s1 d1 where a: "applyStorageProof X s sp = Ok (s1, d1)"
    and r: "applyStorageProofs X s1 sps (d @ [d1]) = Ok (s', d')"
    by (auto split: result.splits)
  from a have "dom (unspentOutputs s1) = insert (StorageProofOutputID X sp) (dom (unspentOutputs s))"
    and "spentOutputs s1 = spentOutputs s"
    by (auto simp: applyStorageProof_def split: option.splits)
  with Cons.IH [OF r] show ?case
    by auto
qed

lemma invertStorageProofs_disjoint:
  "invertStorageProofs X s sps d = Ok (s', d') \<Longrightarrow> disjointOutputs s \<Longrightarrow> disjointOutputs s'"
proof (induction sps arbitrary: s d)
  case Nil
  then show ?case by simp
next
  case (Cons sp sps)
  from Cons.prems(1) obtain s1 d1 where a: "invertStorageProof X s sp = Ok (s1, d1)"
    and r: "invertStorageProofs X s1 sps (d @ [d1]) = Ok (s', d')"
    by (auto split: result.splits)
  from a have "unspentOutputs s1 = (unspentOutputs s)(StorageProofOutputID X sp := None)"
    and "spentOutputs s1 = spentOutputs s"
    by (auto simp: invertStorageProof_def split: option.splits)
  with Cons.prems(2) have "disjointOutputs s1"
    by (auto simp: disjointOutputs_def split: if_splits)
  with r show ?case by (rule Cons.IH)
qed

lemma applyContracts_fields [simp]:
  "unspentOutputs (applyContracts X t s i cs) = unspentOutputs s"
  "spentOutputs (applyContracts X t s i cs) = spentOutputs s"
  by (induction cs arbitrary: s i) (simp_all add: applyContract_def)

lemma deleteContracts_fields [simp]:
  "unspentOutputs (deleteContracts X t s i cs) = unspentOutputs s"
  "spentOutputs (deleteContracts X t s i cs) = spentOutputs s"
  by (induction cs arbitrary: s i) simp_all

lemma invertOutputs_disjoint:
  "invertOutputs X t s i outs d = Ok (s', d') \<Longrightarrow> disjointOutputs s \<Longrightarrow> disjointOutputs s'"
proof (induction outs arbitrary: s i d)
  case Nil
  then show ?case by simp
next
  case (Cons out outs)
  let ?s1 = "s\<lparr>unspentOutputs := (unspentOutputs s)(TransactionOutputID X t i := None)\<rparr>"
  from Cons.prems(1) obtain d1 where r: "invertOutputs X t ?s1 (Suc i) outs d1 = Ok (s', d')"
    by (auto split: result.splits)
  from Cons.prems(2) have "disjointOutputs ?s1"
    by (auto simp: disjointOutputs_def)
  with r show ?case by (rule Cons.IH)
qed

lemma restoreInputs_disjoint:
  "restoreInputs s ins d = (s', d') \<Longrightarrow> disjointOutputs s \<Longrightarrow> disjointOutputs s'"
proof (induction ins arbitrary: s d)
  case Nil
  then show ?case by simp
next
  case (Cons input ins)
  let ?s1 = "s\<lparr>unspentOutputs :=
             (unspentOutputs s)(OutputID input \<mapsto> outputAt (spentOutputs s) (OutputID input)),
          spentOutputs := (spentOutputs s)(OutputID input := None)\<rparr>"
  from Cons.prems(1) obtain d1 where r: "restoreInputs ?s1 ins d1 = (s', d')"
    by auto
  from Cons.prems(2) have "disjointOutputs ?s1"
    by (auto simp: disjointOutputs_def)
  with r show ?case by (rule Cons.IH)
qed

text \<open>
  Claim C4, as the code has it. From a state whose two output maps are disjoint,
  \<open>invertTransaction\<close> gives a state whose maps are disjoint, and \<open>applyTransaction\<close>
  gives one exactly when no identifier of an output that the transaction creates (an
  output of its own or the payout of one of its storage proofs) is a key of
  \<open>spentOutputs\<close> or the identifier of one of its inputs.
\<close>

theorem applyTransaction_invertTransaction_disjoint:
  assumes disj: "disjointOutputs s"
  shows "(applyTransaction X s t = Ok (s', diffs)
          \<longrightarrow> (disjointOutputs s'
               \<longleftrightarrow> set (createdOutputIDs X t)
                     \<inter> (dom (spentOutputs s) \<union> OutputID ` set (Inputs t)) = {}))
       \<and> (invertTransaction X s t = Ok (s'', diffs') \<longrightarrow> disjointOutputs s'')"
proof (intro conjI impI)
  assume a: "applyTransaction X s t = Ok (s', diffs)"
  let ?s0 = "removeTransactionConflictsFromPool s t"
  from a obtain s1 d1 s2 d2 s3 where
    1: "applyInputs X ?s0 (Inputs t) [] = Ok (s1, d1)"
    and 2: "applyOutputs X t s1 0 (Outputs t) d1 = (s2, d2)"
    and 3: "applyStorageProofs X s2 (StorageProofs t) d2 = Ok (s3, diffs)"
    and 4: "s' = applyContracts X t s3 0 (FileContracts t)"
    by (auto simp: applyTransaction_def split: result.splits prod.splits)
  from applyInputs_dom [OF 1] have
    u1: "dom (unspentOutputs s1) = dom (unspentOutputs s) - OutputID ` set (Inputs t)"
    and p1: "dom (spentOutputs s1) = dom (spentOutputs s) \<union> OutputID ` set (Inputs t)"
    by (simp_all add: removeTransactionConflictsFromPool_fields)
  from applyOutputs_dom [OF 2] have
    u2: "dom (unspentOutputs s2) = dom (unspentOutputs s1) \<union> set (outputIDs X t)"
    and p2: "spentOutputs s2 = spentOutputs s1"
    by (simp_all add: outputIDs_def)
  from applyStorageProofs_dom [OF 3] have
    u3: "dom (unspentOutputs s3) = dom (unspentOutputs s2) \<union> set (payoutIDs X t)"
    and p3: "spentOutputs s3 = spentOutputs s2"
    by (simp_all add: payoutIDs_def)
  from 4 have u4: "unspentOutputs s' = unspentOutputs s3" and p4: "spentOutputs s' = spentOutputs s3"
    by simp_all
  have u: "dom (unspentOutputs s')
             = (dom (unspentOutputs s) - OutputID ` set (Inputs t)) \<union> set (createdOutputIDs X t)"
    by (simp add: u4 u3 u2 u1 createdOutputIDs_def Un_assoc)
  have p: "dom (spentOutputs s') = dom (spentOutputs s) \<union> OutputID ` set (Inputs t)"
    by (simp add: p4 p3 p2 p1)
  from disj have "dom (unspentOutputs s) \<inter> dom (spentOutputs s) = {}"
    by (simp add: disjointOutputs_def)
  then show "disjointOutputs s'
               \<longleftrightarrow> set (createdOutputIDs X t)
                     \<inter> (dom (spentOutputs s) \<union> OutputID ` set (Inputs t)) = {}"
    unfolding disjointOutputs_def u p by blast
next
  assume a: "invertTransaction X s t = Ok (s'', diffs')"
  let ?s1 = "deleteContracts X t s 0 (FileContracts t)"
  from a obtain s2 d2 s3 d3 s4 where
    1: "invertStorageProofs X ?s1 (StorageProofs t) [] = Ok (s2, d2)"
    and 2: "invertOutputs X t s2 0 (Outputs t) d2 = Ok (s3, d3)"
    and 3: "restoreInputs s3 (Inputs t) d3 = (s4, diffs')"
    and 4: "s'' = addTransactionToPool s4 t"
    by (auto simp: invertTransaction_def split: result.splits prod.splits)
  from disj have "disjointOutputs ?s1"
    by (simp add: disjointOutputs_def)
  with 1 have "disjointOutputs s2"
    by (rule invertStorageProofs_disjoint)
  with 2 have "disjointOutputs s3"
    by (rule invertOutputs_disjoint)
  with 3 have "disjointOutputs s4"
    by (rule restoreInputs_disjoint)
  with 4 show "disjointOutputs s''"
    by (simp add: disjointOutputs_def)
qed

theorem applyTransaction_invertTransaction_disjoint_witness:
  "disjointOutputs contractState
   \<and> validTransaction exX contractState proofTransaction = Ok ()
   \<and> createdOutputIDs exX proofTransaction = [500, 501, 940]
   \<and> dom (spentOutputs contractState) = {}
   \<and> map OutputID (Inputs proofTransaction) = [1]
   \<and> succeeds (applyTransaction exX contractState proofTransaction)
   \<and> disjointOutputs (afterApply exX contractState proofTransaction)
   \<and> succeeds (invertTransaction exX (afterApply exX contractState proofTransaction)
                 proofTransaction)
   \<and> disjointOutputs (afterRoundTrip exX contractState proofTransaction)"
proof -
  have d0: "disjointOutputs contractState"
    by (simp add: disjointOutputs_def proof_example_defs example_defs)
  have v: "validTransaction exX contractState proofTransaction = Ok ()"
    by (simp add: validation_defs proof_example_defs example_defs)
  have ids: "createdOutputIDs exX proofTransaction = [500, 501, 940]"
    by (simp add: createdOutputIDs_def outputIDs_def payoutIDs_def proof_example_defs
        example_defs upt_conv_Cons)
  have sp: "dom (spentOutputs contractState) = {}"
    by (simp add: proof_example_defs example_defs)
  have ins: "map OutputID (Inputs proofTransaction) = [1]"
    by (simp add: proof_example_defs)
  have "\<exists>s1 d1. applyTransaction exX contractState proofTransaction = Ok (s1, d1)
          \<and> (\<exists>s2 d2. invertTransaction exX s1 proofTransaction = Ok (s2, d2))"
    by (simp add: applyInvert_defs proof_example_defs example_defs)
  then obtain s1 d1 s2 d2 where
    a: "applyTransaction exX contractState proofTransaction = Ok (s1, d1)"
    and b: "invertTransaction exX s1 proofTransaction = Ok (s2, d2)"
    by blast
  have "OutputID ` set (Inputs proofTransaction) = set (map OutputID (Inputs proofTransaction))"
    by simp
  then have "OutputID ` set (Inputs proofTransaction) = {1}"
    unfolding ins by simp
  then have fresh: "set (createdOutputIDs exX proofTransaction)
      \<inter> (dom (spentOutputs contractState) \<union> OutputID ` set (Inputs proofTransaction)) = {}"
    by (simp add: ids sp)
  from applyTransaction_invertTransaction_disjoint [OF d0] a fresh
  have d1: "disjointOutputs s1"
    by blast
  from applyTransaction_invertTransaction_disjoint [OF d1] b
  have d2: "disjointOutputs s2"
    by blast
  have s1: "afterApply exX contractState proofTransaction = s1"
    by (simp add: afterApply_def a)
  have s2: "afterRoundTrip exX contractState proofTransaction = s2"
    by (simp add: afterRoundTrip_def applyThenInvert_def a b)
  from d0 v ids sp ins a b d1 d2 show ?thesis
    unfolding s1 s2 by (simp add: succeeds_def)
qed

text \<open>
  Claim C4 as stated fails: validation does not keep a transaction from being applied a
  second time. \<open>freeTransaction\<close> has no input and one output of value zero, so it is
  valid in every state. Applied to the example state it creates output 500;
  \<open>claimTransaction\<close>, valid in the state reached, spends that output; in the state
  reached then, whose maps are disjoint, \<open>freeTransaction\<close> is valid again, and applying it
  makes 500 a key of \<open>unspentOutputs\<close> again while it is a key of \<open>spentOutputs\<close>.
\<close>

theorem applyTransaction_replay_not_disjoint:
  "disjointOutputs exState
   \<and> validTransaction exX exState freeTransaction = Ok ()
   \<and> succeeds (applyTransaction exX exState freeTransaction)
   \<and> validTransaction exX freeState claimTransaction = Ok ()
   \<and> succeeds (applyTransaction exX freeState claimTransaction)
   \<and> disjointOutputs claimedState
   \<and> validTransaction exX claimedState freeTransaction = Ok ()
   \<and> succeeds (applyTransaction exX claimedState freeTransaction)
   \<and> unspentOutputs replayedState 500 = Some \<lparr>Value = 0, SpendHash = 1000\<rparr>
   \<and> spentOutputs replayedState 500 = Some \<lparr>Value = 0, SpendHash = 1000\<rparr>
   \<and> \<not> disjointOutputs replayedState"
  by (simp add: validation_defs applyInvert_defs afterApply_def succeeds_def
      disjointOutputs_def replay_example_defs example_defs)

subsection \<open>What each loop does to the maps and the diffs\<close>










subsection \<open>The storage proofs of a transaction\<close>






section \<open>Properties of header validation and block acceptance\<close>

lemmas block_example_defs = exNow_def pastBlock_def badMerkleBlock_def medianBlock_def
  thresholdBlock_def futureBlock_def

lemmas header_defs = validHeader_def earliestChildTimestamp_def MedianTimestampWindow_def
  FutureThreshold_def BlockSizeLimit_def

text \<open>
  Claim C6 fails on the code: \<open>AcceptBlock\<close> returns the error of \<open>validHeader\<close> and
  leaves the state as it was, \<open>badBlocks\<close> included. A block on top of the genesis block
  with a timestamp before the median, and one with a wrong Merkle root, are rejected and
  not recorded, so a second call validates the header again.
\<close>

theorem AcceptBlock_does_not_record_bad_header:
  "AcceptBlock exX exNow exState pastBlock = (Err TimestampInThePast, exState)
   \<and> AcceptBlock exX exNow exState badMerkleBlock = (Err MerkleRootMismatch, exState)
   \<and> BlockIDOf exX pastBlock \<notin> badBlocks exState
   \<and> BlockIDOf exX badMerkleBlock \<notin> badBlocks exState"
  by (simp add: AcceptBlock_def header_defs example_defs block_example_defs)

subsection \<open>The median of the recent timestamps\<close>

lemma sorted_nth_median:
  fixes xs :: "int list"
  assumes "sorted xs" and "length xs = 11"
  shows "length (filter (\<lambda>x. x < xs ! 5) xs) \<le> 5"
    and "length (filter (\<lambda>x. xs ! 5 < x) xs) \<le> 5"
proof -
  have "{i. i < length xs \<and> xs ! i < xs ! 5} \<subseteq> {0..<5}"
  proof
    fix i
    assume "i \<in> {i. i < length xs \<and> xs ! i < xs ! 5}"
    then have i: "i < length xs" and lt: "xs ! i < xs ! 5"
      by simp_all
    have "i < 5"
    proof (rule ccontr)
      assume "\<not> i < 5"
      then have "5 \<le> i" by simp
      with assms(1) i have "xs ! 5 \<le> xs ! i"
        by (simp add: sorted_nth_mono)
      with lt show False by simp
    qed
    then show "i \<in> {0..<5}" by simp
  qed
  then have "card {i. i < length xs \<and> xs ! i < xs ! 5} \<le> card {0..<5::nat}"
    by (intro card_mono) simp_all
  then show "length (filter (\<lambda>x. x < xs ! 5) xs) \<le> 5"
    by (simp add: length_filter_conv_card)
  have "{i. i < length xs \<and> xs ! 5 < xs ! i} \<subseteq> {6..<11}"
  proof
    fix i
    assume "i \<in> {i. i < length xs \<and> xs ! 5 < xs ! i}"
    then have i: "i < length xs" and lt: "xs ! 5 < xs ! i"
      by simp_all
    have "5 < i"
    proof (rule ccontr)
      assume "\<not> 5 < i"
      then have "i \<le> 5" by simp
      with assms have "xs ! i \<le> xs ! 5"
        by (simp add: sorted_nth_mono)
      with lt show False by simp
    qed
    with i assms(2) show "i \<in> {6..<11}" by simp
  qed
  then have "card {i. i < length xs \<and> xs ! 5 < xs ! i} \<le> card {6..<11::nat}"
    by (intro card_mono) simp_all
  then show "length (filter (\<lambda>x. xs ! 5 < x) xs) \<le> 5"
    by (simp add: length_filter_conv_card)
qed

lemma length_filter_sort_map:
  "length (filter P (sort (map f ts))) = length (filter (\<lambda>x. P (f x)) ts)"
proof -
  have "length (filter P (sort (map f ts))) = size (mset (filter P (sort (map f ts))))"
    by (simp only: size_mset)
  also have "\<dots> = size (filter_mset P (image_mset f (mset ts)))"
    by (simp only: mset_filter mset_sort mset_map)
  also have "\<dots> = size (image_mset f (filter_mset (\<lambda>x. P (f x)) (mset ts)))"
    by (simp only: filter_mset_image_mset)
  also have "\<dots> = size (mset (filter (\<lambda>x. P (f x)) ts))"
    by (simp only: size_image_mset mset_filter)
  also have "\<dots> = length (filter (\<lambda>x. P (f x)) ts)"
    by (simp only: size_mset)
  finally show ?thesis .
qed

lemma earliestChildTimestamp_median:
  assumes "length (RecentTimestamps bn) = 11"
  shows "\<exists>m. earliestChildTimestamp bn = Ok m \<and> isMedian (RecentTimestamps bn) m"
proof -
  let ?ts = "RecentTimestamps bn"
  let ?xs = "sort (map sint ?ts)"
  have len: "length ?xs = 11"
    using assms by simp
  then have "?xs ! 5 \<in> set ?xs"
    by (intro nth_mem) simp
  then obtain m where m: "m \<in> set ?ts" and eq: "?xs ! 5 = sint m"
    by auto
  have ok: "earliestChildTimestamp bn = Ok m"
    using len by (simp add: earliestChildTimestamp_def MedianTimestampWindow_def eq)
  have "sorted ?xs"
    by simp
  from sorted_nth_median [OF this len]
  have "length (filter (\<lambda>x. sint x < sint m) ?ts) \<le> 5"
    and "length (filter (\<lambda>x. sint m < sint x) ?ts) \<le> 5"
    unfolding eq length_filter_sort_map by simp_all
  with m assms have "isMedian ?ts m"
    by (simp add: isMedian_def)
  with ok show ?thesis
    by blast
qed

subsection \<open>The accepted interval of timestamps\<close>

lemma sint_diff_no_overflow:
  fixes a b :: "64 word"
  assumes "0 \<le> sint a" and "0 \<le> sint b"
  shows "sint (a - b) = sint a - sint b"
proof -
  have "sint a < 2 ^ (LENGTH(64) - 1)" and "sint b < 2 ^ (LENGTH(64) - 1)"
    by (rule sint_lt)+
  with assms have "- (2 ^ 63) \<le> sint a - sint b" and "sint a - sint b < 2 ^ 63"
    by simp_all
  then have "signed_take_bit 63 (sint a - sint b) = sint a - sint b"
    by (rule signed_take_bit_int_eq_self)
  then show ?thesis
    by (simp add: sint_word_diff)
qed

lemma sint_FutureThreshold: "sint FutureThreshold = 10800"
  by (simp add: FutureThreshold_def)

text \<open>
  Claim C7: with the parent known, the clock and the parent's recent timestamps not before
  the epoch, and the other header checks passing, \<open>validHeader\<close> accepts exactly the
  timestamps from the median of the parent's eleven recent timestamps up to
  \<open>now + FutureThreshold\<close>, both bounds included; a timestamp before the median is
  rejected, and one past \<open>now + FutureThreshold\<close> (and not before the median) gets
  \<open>FutureBlockErr\<close>.
\<close>

theorem validHeader_timestamp_interval:
  assumes parent: "blockMap s (ParentBlockID b) = Some parent"
    and len: "length (RecentTimestamps parent) = 11"
    and clock: "0 \<le> sint now"
    and recent: "\<forall>ts \<in> set (RecentTimestamps parent). 0 \<le> sint ts"
    and target: "CheckTarget X b (Target parent)"
    and size: "encodedLength X b \<le> BlockSizeLimit"
    and root: "MerkleRoot b = TransactionMerkleRoot X b"
  shows "\<exists>m. earliestChildTimestamp parent = Ok m \<and> isMedian (RecentTimestamps parent) m
       \<and> (validHeader X now s b = Ok () \<longleftrightarrow>
            sint m \<le> sint (Timestamp b) \<and> sint (Timestamp b) \<le> sint now + sint FutureThreshold)
       \<and> (sint (Timestamp b) < sint m \<longrightarrow> validHeader X now s b = Err TimestampInThePast)
       \<and> (sint m \<le> sint (Timestamp b) \<and> sint now + sint FutureThreshold < sint (Timestamp b)
            \<longrightarrow> validHeader X now s b = Err FutureBlockErr)"
proof -
  from earliestChildTimestamp_median [OF len] obtain m where
    e: "earliestChildTimestamp parent = Ok m" and med: "isMedian (RecentTimestamps parent) m"
    by blast
  from med recent have m0: "0 \<le> sint m"
    by (simp add: isMedian_def)
  have v: "validHeader X now s b =
      (if sint (Timestamp b) < sint m then Err TimestampInThePast
       else if sint FutureThreshold < sint (Timestamp b - now) then Err FutureBlockErr
       else Ok ())"
    using parent target size root by (simp add: validHeader_def e)
  have past: "validHeader X now s b = Err TimestampInThePast" if "sint (Timestamp b) < sint m"
    using that by (simp add: v)
  have skew: "sint (Timestamp b - now) = sint (Timestamp b) - sint now"
    if "sint m \<le> sint (Timestamp b)"
    using that m0 clock by (intro sint_diff_no_overflow) simp_all
  have future: "validHeader X now s b = Err FutureBlockErr"
    if "sint m \<le> sint (Timestamp b)" and "sint now + sint FutureThreshold < sint (Timestamp b)"
    using that by (simp add: v skew)
  have ok: "validHeader X now s b = Ok ()"
    if "sint m \<le> sint (Timestamp b)" and "sint (Timestamp b) \<le> sint now + sint FutureThreshold"
    using that by (simp add: v skew)
  have iff: "validHeader X now s b = Ok () \<longleftrightarrow>
            sint m \<le> sint (Timestamp b) \<and> sint (Timestamp b) \<le> sint now + sint FutureThreshold"
  proof
    assume a: "validHeader X now s b = Ok ()"
    with past have 1: "sint m \<le> sint (Timestamp b)"
      by (cases "sint (Timestamp b) < sint m") simp_all
    with a future have "\<not> sint now + sint FutureThreshold < sint (Timestamp b)"
      by auto
    with 1 show "sint m \<le> sint (Timestamp b) \<and> sint (Timestamp b) \<le> sint now + sint FutureThreshold"
      by simp
  next
    assume "sint m \<le> sint (Timestamp b) \<and> sint (Timestamp b) \<le> sint now + sint FutureThreshold"
    with ok show "validHeader X now s b = Ok ()"
      by simp
  qed
  from e med iff past future show ?thesis
    by blast
qed

theorem validHeader_timestamp_interval_witness:
  "blockMap exState 1 = Some genesisNode
   \<and> length (RecentTimestamps genesisNode) = 11
   \<and> 0 \<le> sint exNow
   \<and> list_all (\<lambda>ts. 0 \<le> sint ts) (RecentTimestamps genesisNode)
   \<and> earliestChildTimestamp genesisNode = Ok 1417070299
   \<and> sint exNow + sint FutureThreshold = 1417090800
   \<and> validHeader exX exNow exState medianBlock = Ok ()
   \<and> validHeader exX exNow exState thresholdBlock = Ok ()
   \<and> validHeader exX exNow exState pastBlock = Err TimestampInThePast
   \<and> validHeader exX exNow exState futureBlock = Err FutureBlockErr"
proof -
  have p: "blockMap exState 1 = Some genesisNode"
    by (simp add: exState_def)
  have l: "length (RecentTimestamps genesisNode) = 11"
    by (simp add: genesisNode_def)
  have c: "0 \<le> sint exNow"
    by (simp add: exNow_def)
  have r: "\<forall>ts \<in> set (RecentTimestamps genesisNode). 0 \<le> sint ts"
    by (simp add: genesisNode_def)
  have e: "earliestChildTimestamp genesisNode = Ok 1417070299"
    by (simp add: earliestChildTimestamp_def MedianTimestampWindow_def genesisNode_def)
  have f: "sint exNow + sint FutureThreshold = 1417090800"
    by (simp add: exNow_def FutureThreshold_def)
  have others: "CheckTarget exX b (Target genesisNode) \<and> encodedLength exX b \<le> BlockSizeLimit
      \<and> MerkleRoot b = TransactionMerkleRoot exX b \<and> ParentBlockID b = 1"
    if "b \<in> {medianBlock, thresholdBlock, pastBlock, futureBlock}" for b
    using that by (auto simp: exX_def genesisNode_def BlockSizeLimit_def block_example_defs)
  have use: "(validHeader exX exNow exState b = Ok () \<longleftrightarrow>
            1417070299 \<le> sint (Timestamp b) \<and> sint (Timestamp b) \<le> 1417090800)
       \<and> (sint (Timestamp b) < 1417070299 \<longrightarrow> validHeader exX exNow exState b = Err TimestampInThePast)
       \<and> (1417070299 \<le> sint (Timestamp b) \<and> 1417090800 < sint (Timestamp b)
            \<longrightarrow> validHeader exX exNow exState b = Err FutureBlockErr)"
    if "b \<in> {medianBlock, thresholdBlock, pastBlock, futureBlock}" for b
  proof -
    from others [OF that] have pb: "blockMap exState (ParentBlockID b) = Some genesisNode"
      and t: "CheckTarget exX b (Target genesisNode)"
      and s: "encodedLength exX b \<le> BlockSizeLimit"
      and m: "MerkleRoot b = TransactionMerkleRoot exX b"
      using p by simp_all
    from validHeader_timestamp_interval [OF pb l c r t s m] e f show ?thesis
      by auto
  qed
  from use [of medianBlock] have 1: "validHeader exX exNow exState medianBlock = Ok ()"
    by (simp add: medianBlock_def)
  from use [of thresholdBlock] have 2: "validHeader exX exNow exState thresholdBlock = Ok ()"
    by (simp add: thresholdBlock_def)
  from use [of pastBlock] have 3: "validHeader exX exNow exState pastBlock = Err TimestampInThePast"
    by (simp add: pastBlock_def)
  from use [of futureBlock] have 4: "validHeader exX exNow exState futureBlock = Err FutureBlockErr"
    by (simp add: futureBlock_def)
  from r have r': "list_all (\<lambda>ts. 0 \<le> sint ts) (RecentTimestamps genesisNode)"
    by (simp add: list_all_iff)
  from p l c r' e f 1 2 3 4 show ?thesis
    by blast
qed

section \<open>Properties of the catch-up protocol\<close>

lemmas chain_example_defs = forkState_def tallState_def exNode_def exBlock_def

text \<open>
  Claim C8 fails on the code: \<open>SendBlocks\<close> takes the height of every known identifier
  from \<open>blockMap\<close>, which holds the blocks of all forks, and not from the current path.
  Here the requester knows the side fork (blocks 13 and 12) and the genesis block (1); the
  highest known block on the active chain is the genesis block, yet the reply starts at
  height 2 of the active chain. Without the genesis block in the list no known
  identifier is on the active chain, and still no error is returned.
\<close>

theorem SendBlocks_matches_blocks_off_the_active_chain:
  "SendBlocks forkState ([13, 12, 1] @ replicate 29 0) = ([exBlock 2 3], Ok ())
   \<and> SendBlocks forkState ([13, 12] @ replicate 30 0) = ([exBlock 2 3], Ok ())
   \<and> map (currentPath forkState) [0, 1, 2, 3] = [Some 1, Some 2, Some 3, None]
   \<and> map (blockAtHeight forkState) [0, 1, 2]
       = [Ok genesisBlock, Ok (exBlock 1 2), Ok (exBlock 2 3)]"
proof -
  have zeros: "findHighest forkState (replicate n 0) found highest = (found, highest)"
    for n found highest
    by (induction n) (simp_all add: HeightOfBlock_def forkState_def)
  have heights: "HeightOfBlock forkState 13 = Ok 2" "HeightOfBlock forkState 12 = Ok 1"
    "HeightOfBlock forkState (Suc 0) = Ok 0"
    by (simp_all add: HeightOfBlock_def forkState_def exNode_def genesisNode_def)
  have 1: "findHighest forkState ([13, 12, 1] @ replicate 29 0) False 0 = (True, 2)"
    by (simp add: zeros heights)
  have 2: "findHighest forkState ([13, 12] @ replicate 30 0) False 0 = (True, 2)"
    by (simp add: zeros heights)
  have path: "map (currentPath forkState) [0, 1, 2, 3] = [Some 1, Some 2, Some 3, None]"
    by (simp add: forkState_def)
  have at: "map (blockAtHeight forkState) [0, 1, 2]
       = [Ok genesisBlock, Ok (exBlock 1 2), Ok (exBlock 2 3)]"
    and none: "blockAtHeight forkState 3 = Err (NoBlockAtHeight 3)"
      "blockAtHeight forkState 102 = Err (NoBlockAtHeight 102)"
    by (simp_all add: blockAtHeight_def forkState_def exNode_def genesisNode_def)
  from at have two: "blockAtHeight forkState 2 = Ok (exBlock 2 3)"
    by simp
  have loop: "sendLoop forkState 2 102 [] = [exBlock 2 3]"
    by (simp add: sendLoop.simps [of forkState 2] sendLoop.simps [of forkState 3] two none)
  have 3: "SendBlocks forkState ([13, 12, 1] @ replicate 29 0) = ([exBlock 2 3], Ok ())"
    unfolding SendBlocks_def 1 by (simp add: MaxCatchUpBlocks_def loop none)
  have 4: "SendBlocks forkState ([13, 12] @ replicate 30 0) = ([exBlock 2 3], Ok ())"
    unfolding SendBlocks_def 2 by (simp add: MaxCatchUpBlocks_def loop none)
  from 3 4 path at show ?thesis
    by (intro conjI)
qed

subsection \<open>The list of known blocks\<close>

lemma recentLoop_closed:
  "recentLoop X s tip i knownBlocks =
     knownBlocks @ map (blockIDAt X s)
                     (takeWhile (hasBlockAt s) (map (\<lambda>i. tip - of_nat i) [i..<12]))"
proof (induction X s tip i knownBlocks rule: recentLoop.induct)
  case (1 X s tip i knownBlocks)
  show ?case
  proof (cases "i < 12")
    case False
    then show ?thesis
      by (simp add: recentLoop.simps [of X s tip i])
  next
    case True
    then have up: "[i..<12] = i # [Suc i..<12]"
      by (rule upt_conv_Cons)
    show ?thesis
    proof (cases "blockAtHeight s (tip - of_nat i)")
      case (Ok block)
      with True "1.IH" [OF True Ok] show ?thesis
        by (simp add: recentLoop.simps [of X s tip i] up hasBlockAt_def blockIDAt_def)
    next
      case (Err e)
      with True show ?thesis
        by (simp add: recentLoop.simps [of X s tip i] up hasBlockAt_def)
    next
      case (Panic p)
      with True show ?thesis
        by (simp add: recentLoop.simps [of X s tip i] up hasBlockAt_def)
    qed
  qed
qed

lemma backtraceLoop_closed:
  "backtraceLoop X s tip i backtrace knownBlocks =
     knownBlocks @ map (blockIDAt X s)
                     (takeWhile (hasBlockAt s)
                        (map (\<lambda>j. tip - backtrace * 2 ^ (Suc j - i)) [i..<31]))"
proof (induction X s tip i backtrace knownBlocks rule: backtraceLoop.induct)
  case (1 X s tip i backtrace knownBlocks)
  show ?case
  proof (cases "i < 31")
    case False
    then show ?thesis
      by (simp add: backtraceLoop.simps [of X s tip i])
  next
    case True
    then have up: "[i..<31] = i # [Suc i..<31]"
      by (rule upt_conv_Cons)
    have shift: "map (\<lambda>j. tip - backtrace * 2 * 2 ^ (j - i)) [Suc i..<31]
               = map (\<lambda>j. tip - backtrace * 2 ^ (Suc j - i)) [Suc i..<31]"
    proof (rule map_cong)
      show "[Suc i..<31] = [Suc i..<31]" ..
    next
      fix j
      assume "j \<in> set [Suc i..<31]"
      then have "Suc j - i = Suc (j - i)"
        by auto
      then show "tip - backtrace * 2 * 2 ^ (j - i) = tip - backtrace * 2 ^ (Suc j - i)"
        by (simp add: mult.assoc)
    qed
    show ?thesis
    proof (cases "blockAtHeight s (tip - backtrace * 2)")
      case (Ok block)
      with True "1.IH" [OF True Ok] show ?thesis
        by (simp add: backtraceLoop.simps [of X s tip i] up hasBlockAt_def blockIDAt_def shift)
    next
      case (Err e)
      with True show ?thesis
        by (simp add: backtraceLoop.simps [of X s tip i] up hasBlockAt_def)
    next
      case (Panic p)
      with True show ?thesis
        by (simp add: backtraceLoop.simps [of X s tip i] up hasBlockAt_def)
    qed
  qed
qed

lemma backtrace_heights:
  "map (\<lambda>j. tip - (12 :: BlockHeight) * 2 ^ (Suc j - 12)) [12..<31]
     = map (\<lambda>k. tip - 12 * 2 ^ k) [1..<20]"
proof -
  have reindex: "[12..<31] = map (\<lambda>k. k + 11) [1..<20]"
    by (simp add: upt_conv_Cons)
  show ?thesis
    unfolding reindex map_map comp_def by simp
qed

text \<open>
  Claim C9, as the code has it: the list is the identifiers of the most recent blocks, at
  most twelve, then those at the heights \<open>tip - 12 * 2 ^ k\<close> for \<open>k\<close> from 1 up to 19,
  each run stopped at the first height without a block, and last the identifier of the
  block at height 0; so it has at most 32 entries.
\<close>

theorem CatchUp_knownBlocks_shape:
  assumes "height s = Ok tip"
  shows "\<exists>knownBlocks.
           CatchUp_knownBlocks X s = Ok knownBlocks
         \<and> knownBlocks =
             map (blockIDAt X s) (takeWhile (hasBlockAt s) (map (\<lambda>i. tip - of_nat i) [0..<12]))
             @ map (blockIDAt X s) (takeWhile (hasBlockAt s) (map (\<lambda>k. tip - 12 * 2 ^ k) [1..<20]))
             @ [blockIDAt X s 0]
         \<and> length knownBlocks \<le> 32
         \<and> last knownBlocks = blockIDAt X s 0"
proof -
  let ?recent = "takeWhile (hasBlockAt s) (map (\<lambda>i. tip - of_nat i) [0..<12])"
  let ?older = "takeWhile (hasBlockAt s) (map (\<lambda>k. tip - 12 * 2 ^ k) [1..<20])"
  have "length ?recent \<le> length (map (\<lambda>i. tip - of_nat i) [0..<12])"
    by (rule length_takeWhile_le)
  then have r: "length ?recent \<le> 12"
    by (simp only: length_map length_upt; simp)
  have "length ?older \<le> length (map (\<lambda>k. tip - 12 * 2 ^ k) [1..<20])"
    by (rule length_takeWhile_le)
  then have b: "length ?older \<le> 19"
    by (simp only: length_map length_upt; simp)
  have rl: "recentLoop X s tip 0 [] = map (blockIDAt X s) ?recent"
    unfolding recentLoop_closed by (simp only: append_Nil)
  have bl: "backtraceLoop X s tip 12 12 (map (blockIDAt X s) ?recent)
              = map (blockIDAt X s) ?recent @ map (blockIDAt X s) ?older"
    unfolding backtraceLoop_closed backtrace_heights ..
  have g: "BlockIDOf X (case blockAtHeight s 0 of Ok genesis \<Rightarrow> genesis | _ \<Rightarrow> zeroBlock)
             = blockIDAt X s 0"
    by (simp only: blockIDAt_def)
  have "CatchUp_knownBlocks X s =
      Ok (map (blockIDAt X s) ?recent @ map (blockIDAt X s) ?older @ [blockIDAt X s 0])"
    by (simp only: CatchUp_knownBlocks_def assms result.case rl bl g append_assoc)
  moreover have "length (map (blockIDAt X s) ?recent @ map (blockIDAt X s) ?older
                   @ [blockIDAt X s 0]) \<le> 32"
    using r b by (simp only: length_append length_map list.size; simp)
  moreover have "last (map (blockIDAt X s) ?recent @ map (blockIDAt X s) ?older
                   @ [blockIDAt X s 0]) = blockIDAt X s 0"
    by (simp only: last_appendR last_snoc append_assoc [symmetric])
  ultimately show ?thesis
    by blast
qed

theorem CatchUp_knownBlocks_shape_witness:
  "height forkState = Ok 2 \<and> CatchUp_knownBlocks exX forkState = Ok [3, 2, 1, 1]"
proof -
  have h: "height forkState = Ok 2"
    by (simp add: height_def forkState_def exNode_def)
  have at: "blockAtHeight forkState 2 = Ok (exBlock 2 3)"
    "blockAtHeight forkState 1 = Ok (exBlock 1 2)"
    "blockAtHeight forkState 0 = Ok genesisBlock"
    "blockAtHeight forkState (- 1) = Err (NoBlockAtHeight (- 1))"
    "blockAtHeight forkState (- 22) = Err (NoBlockAtHeight (- 22))"
    by (simp_all add: blockAtHeight_def forkState_def exNode_def genesisNode_def)
  have ids: "blockIDAt exX forkState 2 = 3" "blockIDAt exX forkState 1 = 2"
    "blockIDAt exX forkState 0 = 1"
    by (simp_all add: blockIDAt_def at exX_def exBlock_def genesisBlock_def)
  have has: "hasBlockAt forkState 2" "hasBlockAt forkState 1" "hasBlockAt forkState 0"
    "\<not> hasBlockAt forkState (- 1)" "\<not> hasBlockAt forkState (- 22)"
    by (simp_all add: hasBlockAt_def at)
  have r: "takeWhile (hasBlockAt forkState) (map (\<lambda>i. 2 - of_nat i) [0..<12]) = [2, 1, 0]"
    using has by (simp add: upt_conv_Cons)
  have b: "takeWhile (hasBlockAt forkState) (map (\<lambda>k. 2 - 12 * 2 ^ k) [1..<20]) = []"
    using has by (simp add: upt_conv_Cons)
  from CatchUp_knownBlocks_shape [OF h, of exX, unfolded r b] h show ?thesis
    by (simp add: ids)
qed

text \<open>
  Claim C9 as stated fails on the bounds: the second loop runs for \<open>i\<close> from 12 up to
  30, nineteen times. On a chain of height 7000000 the list has 32 identifiers, the
  thirty-first being that of the block at height \<open>tip - 12 * 2 ^ 19\<close>.
\<close>

theorem CatchUp_knownBlocks_32:
  "CatchUp_knownBlocks exX tallState =
     Ok [7000001, 7000000, 6999999, 6999998, 6999997, 6999996, 6999995, 6999994, 6999993,
         6999992, 6999991, 6999990, 6999977, 6999953, 6999905, 6999809, 6999617, 6999233,
         6998465, 6996929, 6993857, 6987713, 6975425, 6950849, 6901697, 6803393, 6606785,
         6213569, 5427137, 3854273, 708545, 1]
   \<and> length [7000001, 7000000, 6999999, 6999998, 6999997, 6999996, 6999995, 6999994, 6999993,
         6999992, 6999991, 6999990, 6999977, 6999953, 6999905, 6999809, 6999617, 6999233,
         6998465, 6996929, 6993857, 6987713, 6975425, 6950849, 6901697, 6803393, 6606785,
         6213569, 5427137, 3854273, 708545, 1 :: BlockID] = 32
   \<and> (7000000 :: BlockHeight) - 12 * 2 ^ 19 = 708544"
  by (simp add: CatchUp_knownBlocks_def height_def blockAtHeight_def recentLoop.simps
      backtraceLoop.simps chain_example_defs exState_def exX_def)

end
